theory Spec2Isabelle
  imports Main "HOL-Library.Word"
begin

unbundle bit_operations_syntax

section \<open>Encoding tables of savegame2.c\<close>

subsection \<open>Enum families\<close>

text \<open>
  The enumerations are declared in headers outside the reviewed sources; their members are
  the case labels of the three switch statements in \<open>order2char\<close>, \<open>dir2char\<close> and
  \<open>activity2char\<close>. \<open>ORDER_LAST\<close> and \<open>ACTIVITY_LAST\<close> are the counting members:
  the switches leave them to the assertion after the switch.
\<close>

datatype unit_orders =
    ORDER_MOVE | ORDER_FULL_MP | ORDER_ACTIVITY | ORDER_BUILD_CITY | ORDER_DISBAND
  | ORDER_BUILD_WONDER | ORDER_TRADE_ROUTE | ORDER_HOMECITY | ORDER_LAST

datatype direction8 =
    DIR8_NORTH | DIR8_SOUTH | DIR8_EAST | DIR8_WEST
  | DIR8_NORTHEAST | DIR8_NORTHWEST | DIR8_SOUTHEAST | DIR8_SOUTHWEST

datatype unit_activity =
    ACTIVITY_IDLE | ACTIVITY_POLLUTION | ACTIVITY_OLD_ROAD | ACTIVITY_MINE
  | ACTIVITY_IRRIGATE | ACTIVITY_FORTIFIED | ACTIVITY_FORTRESS | ACTIVITY_SENTRY
  | ACTIVITY_OLD_RAILROAD | ACTIVITY_PILLAGE | ACTIVITY_GOTO | ACTIVITY_EXPLORE
  | ACTIVITY_TRANSFORM | ACTIVITY_AIRBASE | ACTIVITY_FORTIFYING | ACTIVITY_FALLOUT
  | ACTIVITY_BASE | ACTIVITY_GEN_ROAD | ACTIVITY_CONVERT
  | ACTIVITY_UNKNOWN | ACTIVITY_PATROL_UNUSED | ACTIVITY_LAST

text \<open>Each function is the switch of the source; the last equation is the code after the
  switch (\<open>fc_assert(FALSE); return '?'\<close>).\<close>

fun order2char :: "unit_orders \<Rightarrow> char" where
  "order2char ORDER_MOVE = CHR ''m''"
| "order2char ORDER_FULL_MP = CHR ''w''"
| "order2char ORDER_ACTIVITY = CHR ''a''"
| "order2char ORDER_BUILD_CITY = CHR ''b''"
| "order2char ORDER_DISBAND = CHR ''d''"
| "order2char ORDER_BUILD_WONDER = CHR ''u''"
| "order2char ORDER_TRADE_ROUTE = CHR ''t''"
| "order2char ORDER_HOMECITY = CHR ''h''"
| "order2char ORDER_LAST = CHR ''?''"

fun dir2char :: "direction8 \<Rightarrow> char" where
  "dir2char DIR8_NORTH = CHR ''8''"
| "dir2char DIR8_SOUTH = CHR ''2''"
| "dir2char DIR8_EAST = CHR ''6''"
| "dir2char DIR8_WEST = CHR ''4''"
| "dir2char DIR8_NORTHEAST = CHR ''9''"
| "dir2char DIR8_NORTHWEST = CHR ''7''"
| "dir2char DIR8_SOUTHEAST = CHR ''3''"
| "dir2char DIR8_SOUTHWEST = CHR ''1''"

fun activity2char :: "unit_activity \<Rightarrow> char" where
  "activity2char ACTIVITY_IDLE = CHR ''w''"
| "activity2char ACTIVITY_POLLUTION = CHR ''p''"
| "activity2char ACTIVITY_OLD_ROAD = CHR ''r''"
| "activity2char ACTIVITY_MINE = CHR ''m''"
| "activity2char ACTIVITY_IRRIGATE = CHR ''i''"
| "activity2char ACTIVITY_FORTIFIED = CHR ''f''"
| "activity2char ACTIVITY_FORTRESS = CHR ''t''"
| "activity2char ACTIVITY_SENTRY = CHR ''s''"
| "activity2char ACTIVITY_OLD_RAILROAD = CHR ''l''"
| "activity2char ACTIVITY_PILLAGE = CHR ''e''"
| "activity2char ACTIVITY_GOTO = CHR ''g''"
| "activity2char ACTIVITY_EXPLORE = CHR ''x''"
| "activity2char ACTIVITY_TRANSFORM = CHR ''o''"
| "activity2char ACTIVITY_AIRBASE = CHR ''a''"
| "activity2char ACTIVITY_FORTIFYING = CHR ''y''"
| "activity2char ACTIVITY_FALLOUT = CHR ''u''"
| "activity2char ACTIVITY_BASE = CHR ''b''"
| "activity2char ACTIVITY_GEN_ROAD = CHR ''R''"
| "activity2char ACTIVITY_CONVERT = CHR ''c''"
| "activity2char ACTIVITY_UNKNOWN = CHR ''?''"
| "activity2char ACTIVITY_PATROL_UNUSED = CHR ''?''"
| "activity2char ACTIVITY_LAST = CHR ''?''"

subsection \<open>Bit-packing helpers\<close>

definition hex_chars :: string where
  "hex_chars = ''0123456789abcdef''"

text \<open>The helpers receive a pointer to an array of four indices (\<open>mod[4]\<close> in the callers)
  and read \<open>index[i]\<close> for \<open>i < 4\<close> only.\<close>

type_synonym 'a window = "'a \<times> 'a \<times> 'a \<times> 'a"

fun slot :: "'a window \<Rightarrow> nat \<Rightarrow> 'a" where
  "slot (a, b, c, d) i = (if i = 0 then a else if i = 1 then b else if i = 2 then c else d)"

text \<open>Modelled from the spec: the bit vectors \<open>bv_special\<close>, \<open>bv_bases\<close>, \<open>bv_roads\<close> and
  the test \<open>BV_ISSET\<close> (utility/bitvector.h, absent) are the spec's bit-sets: the set of the
  positions whose bit is set.\<close>

type_synonym bv = "nat set"

definition BV_ISSET :: "bv \<Rightarrow> int \<Rightarrow> bool" where
  "BV_ISSET b i = (nat i \<in> b)"

text \<open>Modelled from the spec: \<open>contains_special\<close> (common/terrain.c, absent) tests one
  special of the bit-set.\<close>

definition contains_special :: "bv \<Rightarrow> nat \<Rightarrow> bool" where
  "contains_special specials sp = (sp \<in> specials)"

text \<open>The loop \<open>for (i = 0; i < 4; i++)\<close> of \<open>sg_special_get\<close>, with its \<open>break\<close> at the
  first slot holding \<open>S_LAST\<close> or more. \<open>S_LAST\<close>, the number of specials, is a constant of
  an absent header and is a parameter here.\<close>

function sg_special_bin :: "nat \<Rightarrow> bv \<Rightarrow> nat window \<Rightarrow> nat \<Rightarrow> nat \<Rightarrow> nat" where
  "sg_special_bin S_LAST specials index i bin =
     (if i < 4 then
        (let sp = slot index i in
         if sp \<ge> S_LAST then bin
         else sg_special_bin S_LAST specials index (i + 1)
                (if contains_special specials sp then bin OR push_bit i 1 else bin))
      else bin)"
  by pat_completeness auto
termination
  by (relation "measure (\<lambda>(S_LAST, specials, index, i, bin). 4 - i)") auto

definition sg_special_get :: "nat \<Rightarrow> bv \<Rightarrow> nat window \<Rightarrow> char" where
  "sg_special_get S_LAST specials index = hex_chars ! sg_special_bin S_LAST specials index 0 0"

function sg_bases_bin :: "bv \<Rightarrow> int window \<Rightarrow> nat \<Rightarrow> nat \<Rightarrow> nat" where
  "sg_bases_bin bases index i bin =
     (if i < 4 then
        (let base = slot index i in
         if base < 0 then bin
         else sg_bases_bin bases index (i + 1)
                (if BV_ISSET bases base then bin OR push_bit i 1 else bin))
      else bin)"
  by pat_completeness auto
termination
  by (relation "measure (\<lambda>(bases, index, i, bin). 4 - i)") auto

definition sg_bases_get :: "bv \<Rightarrow> int window \<Rightarrow> char" where
  "sg_bases_get bases index = hex_chars ! sg_bases_bin bases index 0 0"

function sg_roads_bin :: "bv \<Rightarrow> int window \<Rightarrow> nat \<Rightarrow> nat \<Rightarrow> nat" where
  "sg_roads_bin roads index i bin =
     (if i < 4 then
        (let road = slot index i in
         if road < 0 then bin
         else sg_roads_bin roads index (i + 1)
                (if BV_ISSET roads road then bin OR push_bit i 1 else bin))
      else bin)"
  by pat_completeness auto
termination
  by (relation "measure (\<lambda>(roads, index, i, bin). 4 - i)") auto

definition sg_roads_get :: "bv \<Rightarrow> int window \<Rightarrow> char" where
  "sg_roads_get roads index = hex_chars ! sg_roads_bin roads index 0 0"

text \<open>Whether the absent slots of a window are its last ones: no present slot follows a
  sentinel slot. \<open>absent\<close> is the sentinel test of the class.\<close>

fun sentinel_suffix :: "('a \<Rightarrow> bool) \<Rightarrow> 'a window \<Rightarrow> bool" where
  "sentinel_suffix absent (a, b, c, d) =
     ((absent a \<longrightarrow> absent b) \<and> (absent b \<longrightarrow> absent c) \<and> (absent c \<longrightarrow> absent d))"


subsection \<open>Single-character identifiers\<close>

text \<open>A terrain or resource pointer is \<open>None\<close> for the null pointer (\<open>T_UNKNOWN\<close>, no
  resource) and otherwise carries the untranslated rule name the cascades of \<open>strcmp\<close>
  compare.\<close>

fun terrain2char :: "string option \<Rightarrow> char" where
  "terrain2char None = CHR ''i''"
| "terrain2char (Some name) =
     (if name = ''Inaccessible'' then CHR ''i''
      else if name = ''Lake'' then CHR ''+''
      else if name = ''Ocean'' then CHR '' ''
      else if name = ''Deep Ocean'' then CHR '':''
      else if name = ''Glacier'' then CHR ''a''
      else if name = ''Desert'' then CHR ''d''
      else if name = ''Forest'' then CHR ''f''
      else if name = ''Grassland'' then CHR ''g''
      else if name = ''Hills'' then CHR ''h''
      else if name = ''Jungle'' then CHR ''j''
      else if name = ''Mountains'' then CHR ''m''
      else if name = ''Plains'' then CHR ''p''
      else if name = ''Swamp'' then CHR ''s''
      else if name = ''Tundra'' then CHR ''t''
      else CHR '' '')"

text \<open>\<open>RESOURCE_NONE_IDENTIFIER\<close> is a macro of an absent header and is a parameter.\<close>

fun resource2char :: "char \<Rightarrow> string option \<Rightarrow> char" where
  "resource2char RESOURCE_NONE_IDENTIFIER None = RESOURCE_NONE_IDENTIFIER"
| "resource2char RESOURCE_NONE_IDENTIFIER (Some name) =
     (if name = ''Gold'' then CHR ''$''
      else if name = ''Iron'' then CHR ''/''
      else if name = ''?animals:Game'' then CHR ''e''
      else if name = ''Furs'' then CHR ''u''
      else if name = ''Coal'' then CHR ''c''
      else if name = ''Fish'' then CHR ''y''
      else if name = ''Fruit'' then CHR ''f''
      else if name = ''Gems'' then CHR ''g''
      else if name = ''Buffalo'' then CHR ''b''
      else if name = ''Wheat'' then CHR ''j''
      else if name = ''Oasis'' then CHR ''o''
      else if name = ''Peat'' then CHR ''a''
      else if name = ''Pheasant'' then CHR ''p''
      else if name = ''Resources'' then CHR ''r''
      else if name = ''Ivory'' then CHR ''i''
      else if name = ''Silk'' then CHR ''s''
      else if name = ''Spice'' then CHR ''t''
      else if name = ''Whales'' then CHR ''v''
      else if name = ''Wine'' then CHR ''w''
      else if name = ''Oil'' then CHR ''x''
      else CHR '' '')"

text \<open>\<open>bin2ascii_hex(value, halfbyte_wanted)\<close> on the 32-bit \<open>known\<close> words.\<close>

definition bin2ascii_hex :: "32 word \<Rightarrow> nat \<Rightarrow> char" where
  "bin2ascii_hex v halfbyte_wanted = hex_chars ! unat (drop_bit (halfbyte_wanted * 4) v AND 0xf)"

section \<open>The keyed document\<close>

text \<open>
  The registry (\<open>secfile_insert_*\<close>, \<open>secfile_lookup_str\<close>) is an external collaborator. A
  path is kept as the call gives it: the printf format and its arguments, an argument being
  an integer, a string, or a string that an earlier \<open>fc_snprintf\<close> built from a format and
  arguments of its own (\<open>buf\<close>, \<open>path_str\<close>).
\<close>

datatype parg = PI int | PS string | PF string "parg list"

type_synonym path = "string \<times> parg list"

datatype sval = VInt int | VBool bool | VStr string | VStrVec "string list"

type_synonym secfile = "(path \<times> sval) list"

text \<open>Modelled from the spec: the store's typed \<open>set\<close> by formatted path appends an entry;
  \<open>secfile_replace_str\<close> overwrites the entry of the path when there is one.\<close>

definition secfile_insert :: "secfile \<Rightarrow> sval \<Rightarrow> path \<Rightarrow> secfile" where
  "secfile_insert f v p = f @ [(p, v)]"

definition secfile_replace_str :: "secfile \<Rightarrow> string \<Rightarrow> path \<Rightarrow> secfile" where
  "secfile_replace_str f v p =
     (if p \<in> fst ` set f then map (\<lambda>(q, w). if q = p then (q, VStr v) else (q, w)) f
      else f @ [(p, VStr v)])"

definition secfile_keys :: "secfile \<Rightarrow> path set" where
  "secfile_keys f = fst ` set f"

subsection \<open>Decimal tokens\<close>

definition digit_char :: "nat \<Rightarrow> char" where
  "digit_char d = char_of (48 + d)"

function digits :: "nat \<Rightarrow> string" where
  "digits n = (if n < 10 then [digit_char n] else digits (n div 10) @ [digit_char (n mod 10)])"
  by pat_completeness auto
termination
  by (relation "measure id") auto

declare digits.simps [simp del]

definition show_int :: "int \<Rightarrow> string" where
  "show_int i = (if i < 0 then CHR ''-'' # digits (nat (- i)) else digits (nat i))"

definition TOKEN_SIZE :: nat where
  "TOKEN_SIZE = 10"

text \<open>\<open>fc_snprintf(token, sizeof(token), "%d", n)\<close>: the decimal text, cut to the buffer's
  size less the terminator.\<close>

definition token_of_int :: "int \<Rightarrow> string" where
  "token_of_int n = take (TOKEN_SIZE - 1) (show_int n)"


section \<open>Game state and save state\<close>

text \<open>
  The pieces of the live game that the save routines read. Fields written one after
  another by plain \<open>secfile_insert_*\<close> calls, none of which decides a branch, are kept as
  lists of (field name, value) in the order of the calls; the model formats their paths as
  the code does.
\<close>

type_synonym fields = "(string \<times> sval) list"

text \<open>A worklist entry is a \<open>struct universal\<close>; only its two rule names are saved
  (\<open>universal_type_rule_name\<close>, \<open>universal_rule_name\<close>, both absent). A worklist is the list
  of its first \<open>length\<close> entries.\<close>

type_synonym universal = "string \<times> string"

definition universal_type_rule_name :: "universal \<Rightarrow> string" where
  "universal_type_rule_name entry = fst entry"

definition universal_rule_name :: "universal \<Rightarrow> string" where
  "universal_rule_name entry = snd entry"

text \<open>Units are shared by pointer between the unit list of their owner, the supported-unit
  list of their home city and the unit list of their tile: the lists hold addresses, the
  units live in a store.\<close>

record fc_unit =
  u_fields_head :: fields
  ord_map :: int
  ord_city :: int
  u_fields_tail :: fields

type_synonym unit_store = "nat \<Rightarrow> fc_unit"

record city =
  c_fields_head :: fields
  city_radius_sq :: int
  c_built :: "nat \<Rightarrow> bool"
  c_worklist :: "universal list"
  c_fields_tail :: fields
  citizens_nation_get :: "nat \<Rightarrow> int"
  units_supported :: "nat list"

record player =
  player_number :: nat
  plr_main_fields :: fields
  plr_cities :: "city list"
  plr_units :: "nat list"
  plr_attribute_fields :: fields

record tile =
  t_terrain :: "string option"
  t_spec_sprite :: "string option"
  t_label :: "string option"
  t_bases :: bv
  t_roads :: bv
  t_special :: bv
  t_resource :: "string option"
  t_owner :: "int option"
  t_claimer :: "int option"
  t_worked :: "int option"
  t_units :: "nat list"
  t_known :: "nat set"

record civ_map =
  xsize :: nat
  ysize :: nat
  map_is_empty :: bool
  native_pos_to_tile :: "nat \<Rightarrow> nat \<Rightarrow> tile"

record game_scenario =
  is_scenario :: bool
  scenario_name :: string
  scenario_description :: string
  scenario_players :: bool
  startpos_nations :: bool

datatype server_states = S_S_INITIAL | S_S_RUNNING | S_S_OVER

record game_info =
  game_version :: int
  is_new_game :: bool
  server_state :: server_states
  server_states_name :: "server_states \<Rightarrow> string"
  meta_patches :: string
  meta_addr_port :: string
  game_identifier :: string
  serverid :: string
  skill_level :: int
  phase_mode :: int
  phase :: int
  turn :: int
  year :: int
  year_0_hack :: bool
  globalwarming :: int
  heating :: int
  warminglevel :: int
  nuclearwinter :: int
  cooling :: int
  coolinglevel :: int
  global_advances :: "nat \<Rightarrow> bool"
  citizen_nationality :: bool

record game_control =
  improvement_names :: "string list"
  num_tech_types :: nat
  advance_rule_name :: "nat \<Rightarrow> string"
  activity_names :: "string list"
  trait_names :: "string list"
  special_names :: "string list"
  base_names :: "string list"
  road_names :: "string list"
  MAX_NUM_ITEMS :: nat
  MAX_LEN_WORKLIST :: nat
  RESOURCE_NONE_IDENTIFIER :: char
  S_OLD_RIVER :: nat

record game =
  g_scenario :: game_scenario
  info :: game_info
  control :: game_control
  gmap :: civ_map
  players :: "player list"
  shuffled_players :: "nat list"
  game_was_started :: bool
  great_wonder_destroyed :: "nat \<Rightarrow> bool"
  identity_number :: int
  player_slot_max_used_number :: nat
  player_slot_is_used :: "nat \<Rightarrow> bool"
  script_server_state :: secfile
  settings_game :: secfile
  mapimg_defs :: "string list"

text \<open>\<open>struct savedata\<close>, the static flag \<open>sg_success\<close> and the unit store, the only part of
  the game that a save writes to. The field \<open>invoked\<close> is not in the source: it records
  the names of the functions that the top-level routine has called, in the order of the
  calls, so that what the routine invokes can be stated.\<close>

record sg =
  secfile :: secfile
  secfile_options :: string
  save_reason :: string
  scenario :: bool
  save_players :: bool
  sg_success :: bool
  units :: unit_store
  invoked :: "string list"

definition S_LAST :: "game \<Rightarrow> nat" where
  "S_LAST g = length (special_names (control g))"

definition num_base_types :: "game \<Rightarrow> int" where
  "num_base_types g = int (length (base_names (control g)))"

definition num_road_types :: "game \<Rightarrow> int" where
  "num_road_types g = int (length (road_names (control g)))"

definition improvement_count :: "game \<Rightarrow> nat" where
  "improvement_count g = length (improvement_names (control g))"

text \<open>A run of \<open>secfile_insert_*\<close> calls.\<close>

definition insert_all :: "sg \<Rightarrow> secfile \<Rightarrow> sg" where
  "insert_all s es = s\<lparr>secfile := foldl (\<lambda>f (p, v). secfile_insert f v p) (secfile s) es\<rparr>"

text \<open>A loop whose body holds an \<open>sg_failure_ret\<close>: the failing pass returns from the
  enclosing function, so no later pass runs.\<close>

fun iterate_ret :: "('a \<Rightarrow> sg \<Rightarrow> sg) \<Rightarrow> 'a list \<Rightarrow> sg \<Rightarrow> sg" where
  "iterate_ret body [] s = s"
| "iterate_ret body (x # xs) s =
     (let s' = body x s in if sg_success s' then iterate_ret body xs s' else s')"

section \<open>The map macros\<close>

text \<open>Modelled from the spec: \<open>fc_isprint\<close> (utility/support.c, absent) accepts the
  printable characters, which for the 7-bit values it is given are 0x20 to 0x7e.\<close>

definition fc_isprint :: "nat \<Rightarrow> bool" where
  "fc_isprint c = (32 \<le> c \<and> c \<le> 126)"

text \<open>The inner loop of \<open>SAVE_MAP_CHAR\<close> over \<open>_nat_x\<close>: the line built so far, or \<open>None\<close>
  when a character fails the check of \<open>sg_failure_ret\<close>. \<open>native_pos_to_tile\<close> gives a tile
  for every position in range, so the \<open>continue\<close> of the assertion is never taken.\<close>

fun save_map_line :: "(nat \<Rightarrow> char) \<Rightarrow> nat list \<Rightarrow> string \<Rightarrow> string option" where
  "save_map_line get_x [] line = Some line"
| "save_map_line get_x (x # xs) line =
     (let c = get_x x in
      if fc_isprint (of_char c AND 0x7f) then save_map_line get_x xs (line @ [c]) else None)"

text \<open>The outer loop over \<open>_nat_y\<close>. A failing character sets \<open>sg_success\<close> to false and
  returns from the function that uses the macro; the rows before it stay written.\<close>

fun save_map_rows :: "(nat \<Rightarrow> nat \<Rightarrow> char) \<Rightarrow> (nat \<Rightarrow> path) \<Rightarrow> nat \<Rightarrow> nat list \<Rightarrow> sg \<Rightarrow> sg" where
  "save_map_rows get_xy secpath w [] s = s"
| "save_map_rows get_xy secpath w (y # ys) s =
     (case save_map_line (\<lambda>x. get_xy x y) [0..<w] [] of
        None \<Rightarrow> s\<lparr>sg_success := False\<rparr>
      | Some line \<Rightarrow>
          save_map_rows get_xy secpath w ys
            (s\<lparr>secfile := secfile_insert (secfile s) (VStr line) (secpath y)\<rparr>))"

definition SAVE_MAP_CHAR :: "civ_map \<Rightarrow> (nat \<Rightarrow> nat \<Rightarrow> char) \<Rightarrow> (nat \<Rightarrow> path) \<Rightarrow> sg \<Rightarrow> sg" where
  "SAVE_MAP_CHAR m get_xy secpath s = save_map_rows get_xy secpath (xsize m) [0..<ysize m] s"

text \<open>\<open>LOAD_MAP_CHAR\<close>: \<open>lookup y\<close> is \<open>secfile_lookup_str\<close> for row \<open>y\<close> (\<open>None\<close> for
  \<open>NULL\<close>), \<open>set_xy\<close> is the macro argument \<open>SET_XY_CHAR\<close>. The result carries
  \<open>_printed_warning\<close>, on which the final \<open>log_sg\<close> message depends.\<close>

fun load_map_rows ::
  "(char \<Rightarrow> nat \<Rightarrow> nat \<Rightarrow> 'g \<Rightarrow> 'g) \<Rightarrow> (nat \<Rightarrow> string option) \<Rightarrow> nat \<Rightarrow> nat list \<Rightarrow> 'g \<times> bool \<Rightarrow> 'g \<times> bool"
where
  "load_map_rows set_xy lookup w [] r = r"
| "load_map_rows set_xy lookup w (y # ys) (g, printed_warning) =
     (case lookup y of
        None \<Rightarrow> load_map_rows set_xy lookup w ys (g, True)
      | Some line \<Rightarrow>
          if length line \<noteq> w then load_map_rows set_xy lookup w ys (g, True)
          else load_map_rows set_xy lookup w ys
                 (foldl (\<lambda>g x. set_xy (line ! x) x y g) g [0..<w], printed_warning))"

definition LOAD_MAP_CHAR ::
  "(char \<Rightarrow> nat \<Rightarrow> nat \<Rightarrow> 'g \<Rightarrow> 'g) \<Rightarrow> (nat \<Rightarrow> string option) \<Rightarrow> nat \<Rightarrow> nat \<Rightarrow> 'g \<Rightarrow> 'g \<times> bool" where
  "LOAD_MAP_CHAR set_xy lookup w h g = load_map_rows set_xy lookup w [0..<h] (g, False)"

text \<open>A grid attribute class on load: the tiles hold decoded values, and \<open>SET_XY_CHAR\<close>
  stores the decoding of the character in the tile at the position.\<close>

definition set_tile_value :: "(char \<Rightarrow> 'v) \<Rightarrow> char \<Rightarrow> nat \<Rightarrow> nat \<Rightarrow> (nat \<times> nat \<Rightarrow> 'v) \<Rightarrow> (nat \<times> nat \<Rightarrow> 'v)" where
  "set_tile_value decode ch x y g = g((x, y) := decode ch)"

section \<open>Helper functions\<close>

text \<open>\<open>worklist_save\<close>. \<open>path_str\<close> is the formatted first part of the path. The assertion
  \<open>fc_assert_ret(max_length <= MAX_LEN_WORKLIST)\<close> returns before the padding loop when it
  fails.\<close>

definition worklist_save :: "nat \<Rightarrow> secfile \<Rightarrow> universal list \<Rightarrow> nat \<Rightarrow> parg \<Rightarrow> secfile" where
  "worklist_save max_len_worklist f pwl max_length path_str =
     (let f1 = secfile_insert f (VInt (int (length pwl))) (''%s.wl_length'', [path_str]);
          f2 = foldl (\<lambda>f i.
                  secfile_insert
                    (secfile_insert f (VStr (universal_type_rule_name (pwl ! i)))
                       (''%s.wl_kind%d'', [path_str, PI (int i)]))
                    (VStr (universal_rule_name (pwl ! i)))
                    (''%s.wl_value%d'', [path_str, PI (int i)]))
                f1 [0..<length pwl]
      in if \<not> max_length \<le> max_len_worklist then f2
         else foldl (\<lambda>f i.
                  secfile_insert
                    (secfile_insert f (VStr []) (''%s.wl_kind%d'', [path_str, PI (int i)]))
                    (VStr []) (''%s.wl_value%d'', [path_str, PI (int i)]))
                f2 [length pwl..<max_length])"

text \<open>\<open>unit_ordering_calc\<close>. The counter \<open>j\<close> of the two numbering loops is the second
  argument.\<close>

fun ord_city_loop :: "nat list \<Rightarrow> int \<Rightarrow> unit_store \<Rightarrow> unit_store" where
  "ord_city_loop [] j st = st"
| "ord_city_loop (punit # us) j st =
     ord_city_loop us (j + 1) (st(punit := (st punit)\<lparr>ord_city := j\<rparr>))"

fun ord_map_loop :: "nat list \<Rightarrow> int \<Rightarrow> unit_store \<Rightarrow> unit_store" where
  "ord_map_loop [] j st = st"
| "ord_map_loop (punit # us) j st =
     ord_map_loop us (j + 1) (st(punit := (st punit)\<lparr>ord_map := j\<rparr>))"

definition ord_city_reset :: "nat list \<Rightarrow> unit_store \<Rightarrow> unit_store" where
  "ord_city_reset us st = foldl (\<lambda>st punit. st(punit := (st punit)\<lparr>ord_city := 0\<rparr>)) st us"

definition ord_city_player :: "player \<Rightarrow> unit_store \<Rightarrow> unit_store" where
  "ord_city_player pplayer st =
     foldl (\<lambda>st pcity. ord_city_loop (units_supported pcity) 0 st)
       (ord_city_reset (plr_units pplayer) st) (plr_cities pplayer)"

text \<open>\<open>whole_map_iterate\<close> visits the tiles by index; \<open>index_to_native_pos\<close> splits an index
  into column and row.\<close>

definition whole_map_positions :: "civ_map \<Rightarrow> (nat \<times> nat) list" where
  "whole_map_positions m = map (\<lambda>i. (i mod xsize m, i div xsize m)) [0..<xsize m * ysize m]"

definition whole_map_tiles :: "civ_map \<Rightarrow> tile list" where
  "whole_map_tiles m = map (\<lambda>(x, y). native_pos_to_tile m x y) (whole_map_positions m)"

definition unit_ordering_calc :: "game \<Rightarrow> unit_store \<Rightarrow> unit_store" where
  "unit_ordering_calc g st =
     foldl (\<lambda>st ptile. ord_map_loop (t_units ptile) 0 st)
       (foldl (\<lambda>st pplayer. ord_city_player pplayer st) st (players g))
       (whole_map_tiles (gmap g))"

section \<open>Saving the map\<close>

text \<open>The three \<open>halfbyte_iterate\<close> macros, with a body that may return from the enclosing
  function by \<open>sg_failure_ret\<close>.\<close>

function halfbyte_iterate_special :: "nat \<Rightarrow> (nat \<Rightarrow> sg \<Rightarrow> sg) \<Rightarrow> nat \<Rightarrow> sg \<Rightarrow> sg" where
  "halfbyte_iterate_special num_specials_types body j s =
     (if 4 * j < num_specials_types then
        (let s' = body j s in
         if sg_success s' then halfbyte_iterate_special num_specials_types body (j + 1) s' else s')
      else s)"
  by pat_completeness auto
termination
  by (relation "measure (\<lambda>(n, body, j, s). n - 4 * j)") auto

function halfbyte_iterate_bases :: "int \<Rightarrow> (int \<Rightarrow> sg \<Rightarrow> sg) \<Rightarrow> int \<Rightarrow> sg \<Rightarrow> sg" where
  "halfbyte_iterate_bases num_bases_types body j s =
     (if 4 * j < num_bases_types then
        (let s' = body j s in
         if sg_success s' then halfbyte_iterate_bases num_bases_types body (j + 1) s' else s')
      else s)"
  by pat_completeness auto
termination
  by (relation "measure (\<lambda>(n, body, j, s). nat (n - 4 * j))") auto

function halfbyte_iterate_roads :: "int \<Rightarrow> (int \<Rightarrow> sg \<Rightarrow> sg) \<Rightarrow> int \<Rightarrow> sg \<Rightarrow> sg" where
  "halfbyte_iterate_roads num_roads_types body j s =
     (if 4 * j < num_roads_types then
        (let s' = body j s in
         if sg_success s' then halfbyte_iterate_roads num_roads_types body (j + 1) s' else s')
      else s)"
  by pat_completeness auto
termination
  by (relation "measure (\<lambda>(n, body, j, s). nat (n - 4 * j))") auto

declare halfbyte_iterate_special.simps [simp del]
declare halfbyte_iterate_bases.simps [simp del]
declare halfbyte_iterate_roads.simps [simp del]

text \<open>The windows \<open>mod[4]\<close> that the three functions build for nibble group \<open>j\<close>.\<close>

definition bases_mod :: "int \<Rightarrow> int \<Rightarrow> int window" where
  "bases_mod num j =
     (let m = (\<lambda>l. if 4 * j + 1 > num then - 1 else 4 * j + l)
      in (m 0, m 1, m 2, m 3))"

definition roads_mod :: "int \<Rightarrow> int \<Rightarrow> int window" where
  "roads_mod num j =
     (let m = (\<lambda>l. if 4 * j + 1 > num then - 1 else 4 * j + l)
      in (m 0, m 1, m 2, m 3))"

definition specials_mod :: "bool \<Rightarrow> nat \<Rightarrow> nat \<Rightarrow> nat \<Rightarrow> nat window" where
  "specials_mod rivers_overlay s_old_river s_last j =
     (let m = (\<lambda>l. if rivers_overlay
                    then (if 4 * j + l = s_old_river then s_old_river else s_last)
                    else min (4 * j + l) s_last)
      in (m 0, m 1, m 2, m 3))"

text \<open>The body of the loop of \<open>sg_save_map_tiles\<close> over the whole map, for the tile at one
  position: its special sprite and its label, when it has them.\<close>

definition save_tile_sprites :: "game \<Rightarrow> sg \<Rightarrow> nat \<times> nat \<Rightarrow> sg" where
  "save_tile_sprites g s pos =
     (let nat_x = fst pos; nat_y = snd pos;
          ptile = native_pos_to_tile (gmap g) nat_x nat_y;
          s' = (case t_spec_sprite ptile of
                  None \<Rightarrow> s
                | Some sprite \<Rightarrow>
                    insert_all s [((''map.spec_sprite_%d_%d'',
                                    [PI (int nat_x), PI (int nat_y)]), VStr sprite)])
      in case t_label ptile of
           None \<Rightarrow> s'
         | Some label \<Rightarrow>
             insert_all s' [((''map.label_%d_%d'',
                              [PI (int nat_x), PI (int nat_y)]), VStr label)])"

definition sg_save_map_tiles :: "game \<Rightarrow> sg \<Rightarrow> sg" where
  "sg_save_map_tiles g s =
     (if \<not> sg_success s then s
      else
        (let s1 = SAVE_MAP_CHAR (gmap g)
                    (\<lambda>x y. terrain2char (t_terrain (native_pos_to_tile (gmap g) x y)))
                    (\<lambda>y. (''map.t%04d'', [PI (int y)])) s
         in if \<not> sg_success s1 then s1
            else foldl (save_tile_sprites g) s1 (whole_map_positions (gmap g))))"

text \<open>\<open>sg_save_map_startpos\<close> returns right after its entry check: the condition around the
  \<open>return\<close> is commented out.\<close>

definition sg_save_map_startpos :: "game \<Rightarrow> sg \<Rightarrow> sg" where
  "sg_save_map_startpos g s = (if \<not> sg_success s then s else s)"

definition sg_save_map_tiles_bases :: "game \<Rightarrow> sg \<Rightarrow> sg" where
  "sg_save_map_tiles_bases g s =
     (if \<not> sg_success s then s
      else halfbyte_iterate_bases (num_base_types g)
             (\<lambda>j. SAVE_MAP_CHAR (gmap g)
                    (\<lambda>x y. sg_bases_get (t_bases (native_pos_to_tile (gmap g) x y))
                             (bases_mod (num_base_types g) j))
                    (\<lambda>y. (''map.b%02d_%04d'', [PI j, PI (int y)])))
             0 s)"

definition sg_save_map_tiles_roads :: "game \<Rightarrow> sg \<Rightarrow> sg" where
  "sg_save_map_tiles_roads g s =
     (if \<not> sg_success s then s
      else halfbyte_iterate_roads (num_road_types g)
             (\<lambda>j. SAVE_MAP_CHAR (gmap g)
                    (\<lambda>x y. sg_roads_get (t_roads (native_pos_to_tile (gmap g) x y))
                             (roads_mod (num_road_types g) j))
                    (\<lambda>y. (''map.r%02d_%04d'', [PI j, PI (int y)])))
             0 s)"

definition sg_save_map_tiles_specials :: "game \<Rightarrow> bool \<Rightarrow> sg \<Rightarrow> sg" where
  "sg_save_map_tiles_specials g rivers_overlay s =
     (if \<not> sg_success s then s
      else halfbyte_iterate_special (S_LAST g)
             (\<lambda>j. SAVE_MAP_CHAR (gmap g)
                    (\<lambda>x y. sg_special_get (S_LAST g) (t_special (native_pos_to_tile (gmap g) x y))
                             (specials_mod rivers_overlay (S_OLD_RIVER (control g)) (S_LAST g) j))
                    (\<lambda>y. (''map.spe%02d_%04d'', [PI (int j), PI (int y)])))
             0 s)"

definition sg_save_map_tiles_resources :: "game \<Rightarrow> sg \<Rightarrow> sg" where
  "sg_save_map_tiles_resources g s =
     (if \<not> sg_success s then s
      else SAVE_MAP_CHAR (gmap g)
             (\<lambda>x y. resource2char (RESOURCE_NONE_IDENTIFIER (control g))
                      (t_resource (native_pos_to_tile (gmap g) x y)))
             (\<lambda>y. (''map.res%04d'', [PI (int y)])) s)"

text \<open>One line of \<open>map.owner\<close>, \<open>map.source\<close> and \<open>map.worked\<close>: the token of each tile is
  appended to the line, then a comma under the condition the loop tests (\<open>x + 1 < map.xsize\<close>
  in \<open>sg_save_map_owner\<close>, \<open>x < map.xsize\<close> in \<open>sg_save_map_worked\<close>).\<close>

definition map_owner_line :: "civ_map \<Rightarrow> bool \<Rightarrow> nat \<Rightarrow> string" where
  "map_owner_line m saveplayers y =
     foldl (\<lambda>line x.
        (let ptile = native_pos_to_tile m x y;
             token = (if \<not> saveplayers then ''-''
                      else case t_owner ptile of None \<Rightarrow> ''-''
                           | Some plrno \<Rightarrow> token_of_int plrno);
             line = line @ token
         in if x + 1 < xsize m then line @ '','' else line))
       [] [0..<xsize m]"

definition map_source_line :: "civ_map \<Rightarrow> nat \<Rightarrow> string" where
  "map_source_line m y =
     foldl (\<lambda>line x.
        (let ptile = native_pos_to_tile m x y;
             token = (case t_claimer ptile of None \<Rightarrow> ''-'' | Some idx \<Rightarrow> token_of_int idx);
             line = line @ token
         in if x + 1 < xsize m then line @ '','' else line))
       [] [0..<xsize m]"

definition map_worked_line :: "civ_map \<Rightarrow> nat \<Rightarrow> string" where
  "map_worked_line m y =
     foldl (\<lambda>line x.
        (let ptile = native_pos_to_tile m x y;
             token = (case t_worked ptile of None \<Rightarrow> ''-'' | Some cid \<Rightarrow> token_of_int cid);
             line = line @ token
         in if x < xsize m then line @ '','' else line))
       [] [0..<xsize m]"

definition sg_save_map_owner :: "game \<Rightarrow> sg \<Rightarrow> sg" where
  "sg_save_map_owner g s =
     (if \<not> sg_success s then s
      else if scenario s \<and> \<not> save_players s then s
      else
        (let s1 = foldl (\<lambda>s y. insert_all s
                     [((''map.owner%04d'', [PI (int y)]),
                       VStr (map_owner_line (gmap g) (save_players s) y))])
                   s [0..<ysize (gmap g)]
         in foldl (\<lambda>s y. insert_all s
                     [((''map.source%04d'', [PI (int y)]), VStr (map_source_line (gmap g) y))])
              s1 [0..<ysize (gmap g)]))"

definition sg_save_map_worked :: "game \<Rightarrow> sg \<Rightarrow> sg" where
  "sg_save_map_worked g s =
     (if \<not> sg_success s then s
      else if scenario s \<and> \<not> save_players s then s
      else foldl (\<lambda>s y. insert_all s
                    [((''map.worked%04d'', [PI (int y)]), VStr (map_worked_line (gmap g) y))])
             s [0..<ysize (gmap g)])"

text \<open>The 32-bit word \<open>known[l * MAP_INDEX_SIZE + tile_index(ptile)]\<close> after the loop over the
  players that fills the array.\<close>

definition known_word :: "game \<Rightarrow> nat \<Rightarrow> tile \<Rightarrow> 32 word" where
  "known_word g l ptile =
     foldl (\<lambda>k pplayer.
        (let p = player_number pplayer
         in if p \<in> t_known ptile \<and> p div 32 = l then k OR push_bit (p mod 32) 1 else k))
       0 (players g)"

text \<open>The innermost loop over \<open>i\<close>, which saves the half-byte once when one of its four
  player slots is used and then breaks.\<close>

definition known_halfbyte_used :: "game \<Rightarrow> nat \<Rightarrow> nat \<Rightarrow> bool" where
  "known_halfbyte_used g l j = (\<exists>i \<in> set [0..<4]. player_slot_is_used g (l * 32 + j * 4 + i))"

definition sg_save_map_known :: "game \<Rightarrow> sg \<Rightarrow> sg" where
  "sg_save_map_known g s =
     (if \<not> sg_success s then s
      else if \<not> save_players s then insert_all s [((''game.save_known'', []), VBool False)]
      else
        (let lines = player_slot_max_used_number g div 32 + 1;
             s1 = insert_all s [((''game.save_known'', []), VBool True)]
         in iterate_ret
              (\<lambda>(l, j) s.
                 if known_halfbyte_used g l j
                 then SAVE_MAP_CHAR (gmap g)
                        (\<lambda>x y. bin2ascii_hex (known_word g l (native_pos_to_tile (gmap g) x y)) j)
                        (\<lambda>y. (''map.k%02d_%04d'', [PI (int (l * 8 + j)), PI (int y)])) s
                 else s)
              (concat (map (\<lambda>l. map (\<lambda>j. (l, j)) [0..<8]) [0..<lines])) s1))"

text \<open>\<open>sg_save_savefile_options\<close>; the option is \<open>None\<close> for \<open>NULL\<close>. \<open>sz_strlcat\<close> keeps the
  text within the 512 bytes of \<open>secfile_options\<close>.\<close>

definition sg_save_savefile_options :: "string option \<Rightarrow> sg \<Rightarrow> sg" where
  "sg_save_savefile_options option s =
     (if \<not> sg_success s then s
      else case option of
             None \<Rightarrow> s
           | Some opt \<Rightarrow>
               (let opts = take 511 (secfile_options s @ opt)
                in s\<lparr>secfile_options := opts,
                     secfile := secfile_replace_str (secfile s) opts (''savefile.options'', [])\<rparr>))"

text \<open>\<open>sg_save_map\<close>. Both branches of the test on the scenario flag insert the same entry;
  the calls for the rivers overlay are commented out, so the specials are always saved with
  \<open>rivers_overlay\<close> false.\<close>

definition sg_save_map :: "game \<Rightarrow> sg \<Rightarrow> sg" where
  "sg_save_map g s =
     (if \<not> sg_success s then s
      else if map_is_empty (gmap g) then s
      else
        (let s = insert_all s [((''map.have_huts'', []), VBool True)];
             s = sg_save_map_tiles g s;
             s = sg_save_map_startpos g s;
             s = sg_save_map_tiles_bases g s;
             s = sg_save_map_tiles_roads g s;
             s = sg_save_savefile_options (Some '' specials'') s;
             s = sg_save_map_tiles_specials g False s;
             s = sg_save_map_tiles_resources g s;
             s = sg_save_map_owner g s;
             s = sg_save_map_worked g s
         in sg_save_map_known g s))"

section \<open>Saving the other sections\<close>

definition sg_save_scenario :: "game \<Rightarrow> sg \<Rightarrow> sg" where
  "sg_save_scenario g s =
     (if \<not> sg_success s then s
      else if \<not> scenario s \<or> \<not> is_scenario (g_scenario g)
      then insert_all s [((''scenario.is_scenario'', []), VBool False)]
      else insert_all s
             ([((''scenario.is_scenario'', []), VBool True),
               ((''scenario.name'', []), VStr (scenario_name (g_scenario g)))]
              @ (if scenario_description (g_scenario g) \<noteq> []
                 then [((''scenario.description'', []), VStr (scenario_description (g_scenario g)))]
                 else [])
              @ [((''scenario.players'', []), VBool (scenario_players (g_scenario g))),
                 ((''scenario.startpos_nations'', []), VBool (startpos_nations (g_scenario g)))]))"

definition savefile_options_default :: string where
  "savefile_options_default = '' +version2''"

text \<open>The \<open>version\<close> column of the table \<open>compat\<close>; the current version is its last row.\<close>

definition compat :: "int list" where
  "compat = [0, 3, 10, 20]"

definition compat_current :: nat where
  "compat_current = length compat - 1"

definition sg_save_savefile :: "game \<Rightarrow> sg \<Rightarrow> sg" where
  "sg_save_savefile g s =
     (if \<not> sg_success s then s
      else
        (let c = control g;
             s = sg_save_savefile_options (Some savefile_options_default) s
         in insert_all s
              ([((''savefile.version'', []), VInt (compat ! compat_current)),
                ((''savefile.reason'', []), VStr (save_reason s)),
                ((''savefile.rulesetdir'', []), VStr ''LT49''),
                ((''savefile.improvement_size'', []), VInt (int (improvement_count g)))]
               @ (if improvement_count g > 0
                  then [((''savefile.improvement_vector'', []), VStrVec (improvement_names c))]
                  else [])
               @ [((''savefile.technology_size'', []), VInt (int (num_tech_types c)))]
               @ (if num_tech_types c > 0
                  then [((''savefile.technology_vector'', []),
                         VStrVec (map (\<lambda>i. if i = 0 then ''A_NONE'' else advance_rule_name c i)
                                    [0..<num_tech_types c]))]
                  else [])
               @ [((''savefile.activities_size'', []), VInt (int (length (activity_names c))))]
               @ (if length (activity_names c) > 0
                  then [((''savefile.activities_vector'', []), VStrVec (activity_names c))]
                  else [])
               @ [((''savefile.trait_size'', []), VInt (int (length (trait_names c)))),
                  ((''savefile.trait_vector'', []), VStrVec (trait_names c)),
                  ((''savefile.specials_size'', []), VInt (int (S_LAST g))),
                  ((''savefile.specials_vector'', []), VStrVec (special_names c)),
                  ((''savefile.bases_size'', []), VInt (num_base_types g))]
               @ (if num_base_types g > 0
                  then [((''savefile.bases_vector'', []), VStrVec (base_names c))]
                  else [])
               @ [((''savefile.roads_size'', []), VInt (num_road_types g))]
               @ (if num_road_types g > 0
                  then [((''savefile.roads_vector'', []), VStrVec (road_names c))]
                  else []))))"

definition sg_save_game :: "game \<Rightarrow> sg \<Rightarrow> sg" where
  "sg_save_game g s =
     (if \<not> sg_success s then s
      else
        (let i = info g;
             srv_state = (if scenario s \<and> \<not> scenario_players (g_scenario g) then S_S_INITIAL
                          else if is_new_game i then server_state i else S_S_RUNNING);
             s = insert_all s
                   [((''game.version'', []), VInt (game_version i)),
                    ((''game.server_state'', []), VStr (server_states_name i srv_state)),
                    ((''game.meta_patches'', []), VStr (meta_patches i)),
                    ((''game.meta_usermessage'', []), VBool False),
                    ((''game.meta_server'', []), VStr (meta_addr_port i)),
                    ((''game.id'', []), VStr (game_identifier i)),
                    ((''game.serverid'', []), VStr (serverid i)),
                    ((''game.skill_level'', []), VInt (skill_level i)),
                    ((''game.phase_mode'', []), VInt (phase_mode i)),
                    ((''game.phase_mode_stored'', []), VInt 0),
                    ((''game.phase'', []), VInt (phase i)),
                    ((''game.scoreturn'', []), VInt 0),
                    ((''game.timeoutint'', []), VInt 0),
                    ((''game.timeoutintinc'', []), VInt 0),
                    ((''game.timeoutinc'', []), VInt 0),
                    ((''game.timeoutincmult'', []), VInt 0),
                    ((''game.timeoutcounter'', []), VInt 0),
                    ((''game.turn'', []), VInt (turn i)),
                    ((''game.year'', []), VInt (year i)),
                    ((''game.year_0_hack'', []), VBool (year_0_hack i)),
                    ((''game.globalwarming'', []), VInt (globalwarming i)),
                    ((''game.heating'', []), VInt (heating i)),
                    ((''game.warminglevel'', []), VInt (warminglevel i)),
                    ((''game.nuclearwinter'', []), VInt (nuclearwinter i)),
                    ((''game.cooling'', []), VInt (cooling i)),
                    ((''game.coolinglevel'', []), VInt (coolinglevel i)),
                    ((''game.global_advances'', []),
                     VStr (map (\<lambda>t. if global_advances i t then CHR ''1'' else CHR ''0'')
                             [0..<num_tech_types (control g)]))];
             s = s\<lparr>save_players :=
                      (if \<not> game_was_started g then False
                       else if scenario s then scenario_players (g_scenario g)
                       else True)\<rparr>
         in insert_all s [((''game.save_players'', []), VBool (save_players s))]))"

text \<open>\<open>sg_save_random\<close>: the test is a conjunction with \<open>FALSE\<close>, so only the else branch
  runs.\<close>

definition sg_save_random :: "game \<Rightarrow> sg \<Rightarrow> sg" where
  "sg_save_random g s =
     (if \<not> sg_success s then s
      else insert_all s [((''random.save'', []), VBool False)])"

text \<open>Modelled from the spec: \<open>script_server_state_save\<close> and \<open>settings_game_save\<close> (both
  absent) are the external providers of the scripting state and of the settings; each adds
  its entries to the document.\<close>

definition sg_save_script :: "game \<Rightarrow> sg \<Rightarrow> sg" where
  "sg_save_script g s =
     (if \<not> sg_success s then s else insert_all s (script_server_state g))"

definition sg_save_settings :: "game \<Rightarrow> sg \<Rightarrow> sg" where
  "sg_save_settings g s =
     (if \<not> sg_success s then s else insert_all s (settings_game g))"

definition sg_save_mapimg :: "game \<Rightarrow> sg \<Rightarrow> sg" where
  "sg_save_mapimg g s =
     (if \<not> sg_success s then s
      else insert_all s
             (((''mapimg.count'', []), VInt (int (length (mapimg_defs g))))
              # map (\<lambda>i. ((''mapimg.mapdef%d'', [PI (int i)]), VStr (mapimg_defs g ! i)))
                  [0..<length (mapimg_defs g)]))"

definition sg_save_sanitycheck :: "game \<Rightarrow> sg \<Rightarrow> sg" where
  "sg_save_sanitycheck g s = (if \<not> sg_success s then s else s)"

section \<open>Saving the players\<close>

text \<open>The fields of \<open>sg_save_player_main\<close> and of \<open>sg_save_player_attributes\<close> are all keyed
  \<open>player%d.\<close>\<^emph>\<open>field\<close> with the player number.\<close>

definition player_fields :: "int \<Rightarrow> fields \<Rightarrow> secfile" where
  "player_fields plrno fs = map (\<lambda>(name, v). ((''player%d.'' @ name, [PI plrno]), v)) fs"

text \<open>The fields of a city or unit record are keyed \<open>%s.\<close>\<^emph>\<open>field\<close> with the record's path
  \<open>buf\<close>.\<close>

definition record_fields :: "parg \<Rightarrow> fields \<Rightarrow> secfile" where
  "record_fields buf fs = map (\<lambda>(name, v). ((''%s.'' @ name, [buf]), v)) fs"

definition sg_save_player_main :: "game \<Rightarrow> player \<Rightarrow> sg \<Rightarrow> sg" where
  "sg_save_player_main g plr s =
     (if \<not> sg_success s then s
      else insert_all s (player_fields (int (player_number plr)) (plr_main_fields plr)))"

text \<open>The first loop of \<open>sg_save_player_cities\<close> over the cities: the longest worklist and
  the nations that have citizens in some city.\<close>

definition wlist_max_length :: "city list \<Rightarrow> nat" where
  "wlist_max_length cities =
     foldl (\<lambda>m pcity. if length (c_worklist pcity) > m then length (c_worklist pcity) else m)
       0 cities"

definition citizen_nations :: "game \<Rightarrow> city list \<Rightarrow> nat \<Rightarrow> bool" where
  "citizen_nations g cities =
     foldl (\<lambda>nations pcity.
        foldl (\<lambda>nations pplayer.
           if \<not> nations (player_number pplayer)
              \<and> citizens_nation_get pcity (player_number pplayer) \<noteq> 0
           then nations(player_number pplayer := True) else nations)
          nations (players g))
       (\<lambda>_. False) cities"

text \<open>One pass of the second loop, for the city at position \<open>i\<close>. The improvement string has
  one character for each improvement; \<open>sg_failure_ret\<close> compares its length with the size of
  the buffer, \<open>MAX_NUM_ITEMS + 1\<close>.\<close>

definition save_city :: "game \<Rightarrow> int \<Rightarrow> nat \<Rightarrow> (nat \<Rightarrow> bool) \<Rightarrow> nat \<times> city \<Rightarrow> sg \<Rightarrow> sg" where
  "save_city g plrno max_length nations ic s =
     (let i = fst ic; pcity = snd ic;
          buf = PF ''player%d.c%d'' [PI plrno, PI (int i)];
          s = insert_all s (record_fields buf (c_fields_head pcity));
          s = insert_all s [((''player%d.c%d.city_radius_sq'', [PI plrno, PI (int i)]),
                             VInt (city_radius_sq pcity))];
          impr_buf = map (\<lambda>k. if c_built pcity k then CHR ''1'' else CHR ''0'')
                       [0..<improvement_count g]
      in if \<not> length impr_buf < MAX_NUM_ITEMS (control g) + 1 then s\<lparr>sg_success := False\<rparr>
         else
           (let s = insert_all s [((''%s.improvements'', [buf]), VStr impr_buf)];
                s = s\<lparr>secfile := worklist_save (MAX_LEN_WORKLIST (control g)) (secfile s)
                                     (c_worklist pcity) max_length (PF ''%s'' [buf])\<rparr>;
                s = insert_all s (record_fields buf (c_fields_tail pcity))
            in if citizen_nationality (info g)
               then insert_all s
                      (map (\<lambda>pplayer.
                              ((''%s.citizen%d'', [buf, PI (int (player_number pplayer))]),
                               VInt (citizens_nation_get pcity (player_number pplayer))))
                         (filter (\<lambda>pplayer. nations (player_number pplayer)) (players g)))
               else s))"

definition sg_save_player_cities :: "game \<Rightarrow> player \<Rightarrow> sg \<Rightarrow> sg" where
  "sg_save_player_cities g plr s =
     (if \<not> sg_success s then s
      else
        (let plrno = int (player_number plr);
             cities = plr_cities plr;
             s = insert_all s [((''player%d.ncities'', [PI plrno]), VInt (int (length cities)))]
         in iterate_ret
              (save_city g plrno (wlist_max_length cities) (citizen_nations g cities))
              (zip [0..<length cities] cities) s))"

definition sg_save_player_units :: "game \<Rightarrow> player \<Rightarrow> sg \<Rightarrow> sg" where
  "sg_save_player_units g plr s =
     (if \<not> sg_success s then s
      else
        (let plrno = int (player_number plr);
             s = insert_all s
                   [((''player%d.nunits'', [PI plrno]), VInt (int (length (plr_units plr))))]
         in foldl (\<lambda>s (i, punit).
               (let buf = PF ''player%d.u%d'' [PI plrno, PI (int i)];
                    u = units s punit
                in insert_all s
                     (record_fields buf (u_fields_head u)
                      @ [((''%s.ord_map'', [buf]), VInt (ord_map u)),
                         ((''%s.ord_city'', [buf]), VInt (ord_city u))]
                      @ record_fields buf (u_fields_tail u))))
              s (zip [0..<length (plr_units plr)] (plr_units plr))))"

definition sg_save_player_attributes :: "game \<Rightarrow> player \<Rightarrow> sg \<Rightarrow> sg" where
  "sg_save_player_attributes g plr s =
     (if \<not> sg_success s then s
      else insert_all s (player_fields (int (player_number plr)) (plr_attribute_fields plr)))"

definition sg_save_players :: "game \<Rightarrow> sg \<Rightarrow> sg" where
  "sg_save_players g s =
     (if \<not> sg_success s then s
      else if (scenario s \<and> \<not> save_players s) \<or> \<not> game_was_started g then s
      else
        (let s = insert_all s
                   ([((''players.nplayers'', []), VInt (int (length (players g)))),
                     ((''players.destroyed_wonders'', []),
                      VStr (map (\<lambda>k. if great_wonder_destroyed g k then CHR ''1'' else CHR ''0'')
                              [0..<improvement_count g])),
                     ((''players.identity_number_used'', []), VInt (identity_number g))]
                    @ map (\<lambda>i. ((''players.shuffled_player_%d'', [PI (int i)]),
                                 VInt (int (shuffled_players g ! i))))
                        [0..<length (shuffled_players g)]);
             s = s\<lparr>units := unit_ordering_calc g (units s)\<rparr>
         in foldl (\<lambda>s pplayer.
               sg_save_player_attributes g pplayer
                 (sg_save_player_units g pplayer
                    (sg_save_player_cities g pplayer
                       (sg_save_player_main g pplayer s))))
              s (players g)))"

section \<open>The top-level save\<close>

text \<open>\<open>savedata_new\<close> followed by the assignment \<open>sg_success = TRUE\<close>. The unit store is the
  one of the live game; no function has been called yet.\<close>

definition savedata_new :: "secfile \<Rightarrow> string \<Rightarrow> bool \<Rightarrow> unit_store \<Rightarrow> sg" where
  "savedata_new f reason scen st =
     \<lparr>secfile = f, secfile_options = [], save_reason = reason, scenario = scen,
      save_players = False, sg_success = True, units = st, invoked = []\<rparr>"

text \<open>A call of a stage by the top-level routine: the call is recorded, then the stage
  runs on the state. The stages themselves never touch the record of the calls.\<close>

definition invoke :: "string \<Rightarrow> (sg \<Rightarrow> sg) \<Rightarrow> sg \<Rightarrow> sg" where
  "invoke name stage s = stage (s\<lparr>invoked := invoked s @ [name]\<rparr>)"

definition savegame2_save_real :: "game \<Rightarrow> secfile \<Rightarrow> string \<Rightarrow> bool \<Rightarrow> unit_store \<Rightarrow> sg" where
  "savegame2_save_real g f reason scen st =
     (let s = savedata_new f reason scen st;
          s = invoke ''sg_save_scenario'' (sg_save_scenario g) s;
          s = invoke ''sg_save_savefile'' (sg_save_savefile g) s;
          s = invoke ''sg_save_game'' (sg_save_game g) s;
          s = invoke ''sg_save_random'' (sg_save_random g) s;
          s = invoke ''sg_save_script'' (sg_save_script g) s;
          s = invoke ''sg_save_settings'' (sg_save_settings g) s;
          s = invoke ''sg_save_map'' (sg_save_map g) s;
          s = invoke ''sg_save_players'' (sg_save_players g) s;
          s = invoke ''sg_save_mapimg'' (sg_save_mapimg g) s
      in invoke ''sg_save_sanitycheck'' (sg_save_sanitycheck g) s)"

text \<open>The stages, each with its name, in the order of the calls of
  \<open>savegame2_save_real\<close>, and the functions that \<open>sg_save_map\<close> and \<open>sg_save_players\<close> call
  in turn.\<close>

definition save_stages :: "game \<Rightarrow> (string \<times> (sg \<Rightarrow> sg)) list" where
  "save_stages g =
     [(''sg_save_scenario'', sg_save_scenario g), (''sg_save_savefile'', sg_save_savefile g),
      (''sg_save_game'', sg_save_game g), (''sg_save_random'', sg_save_random g),
      (''sg_save_script'', sg_save_script g), (''sg_save_settings'', sg_save_settings g),
      (''sg_save_map'', sg_save_map g), (''sg_save_players'', sg_save_players g),
      (''sg_save_mapimg'', sg_save_mapimg g), (''sg_save_sanitycheck'', sg_save_sanitycheck g)]"

definition stage_names :: "string list" where
  "stage_names =
     [''sg_save_scenario'', ''sg_save_savefile'', ''sg_save_game'', ''sg_save_random'',
      ''sg_save_script'', ''sg_save_settings'', ''sg_save_map'', ''sg_save_players'',
      ''sg_save_mapimg'', ''sg_save_sanitycheck'']"

definition save_substages :: "game \<Rightarrow> player \<Rightarrow> (sg \<Rightarrow> sg) list" where
  "save_substages g plr =
     [sg_save_savefile_options (Some savefile_options_default),
      sg_save_map_tiles g, sg_save_map_startpos g, sg_save_map_tiles_bases g,
      sg_save_map_tiles_roads g, sg_save_savefile_options (Some '' specials''),
      sg_save_map_tiles_specials g False, sg_save_map_tiles_resources g,
      sg_save_map_owner g, sg_save_map_worked g, sg_save_map_known g,
      sg_save_player_main g plr, sg_save_player_cities g plr,
      sg_save_player_units g plr, sg_save_player_attributes g plr]"

text \<open>Calling a list of stages one after the other.\<close>

definition run_stages :: "(string \<times> (sg \<Rightarrow> sg)) list \<Rightarrow> sg \<Rightarrow> sg" where
  "run_stages stages s = foldl (\<lambda>s (name, stage). invoke name stage s) s stages"

section \<open>Notions for the unit ordering\<close>

text \<open>The state of the unit lists that the game keeps: every unit is in the unit list of
  one player and on one tile, once; a unit is supported by at most one city, which lists it
  once; and the units a city supports belong to the player that owns the city.\<close>

definition all_cities :: "game \<Rightarrow> city list" where
  "all_cities g = concat (map plr_cities (players g))"

definition players_units_wf :: "player list \<Rightarrow> bool" where
  "players_units_wf ps \<longleftrightarrow>
     distinct (concat (map plr_units ps))
     \<and> distinct (concat (map units_supported (concat (map plr_cities ps))))
     \<and> (\<forall>p \<in> set ps. \<forall>c \<in> set (plr_cities p). set (units_supported c) \<subseteq> set (plr_units p))"

definition units_wf :: "game \<Rightarrow> bool" where
  "units_wf g \<longleftrightarrow>
     players_units_wf (players g)
     \<and> distinct (concat (map t_units (whole_map_tiles (gmap g))))"

text \<open>The ordinals that a pass writes, as maps from unit addresses: \<open>set_ords\<close> overwrites
  \<open>ord_city\<close> and \<open>ord_map\<close> of the units in the domains of two such maps.\<close>

definition set_ords :: "(nat \<rightharpoonup> int) \<Rightarrow> (nat \<rightharpoonup> int) \<Rightarrow> unit_store \<Rightarrow> unit_store" where
  "set_ords oc om st =
     (\<lambda>u. (st u)\<lparr>ord_map := (case om u of None \<Rightarrow> ord_map (st u) | Some v \<Rightarrow> v),
                  ord_city := (case oc u of None \<Rightarrow> ord_city (st u) | Some v \<Rightarrow> v)\<rparr>)"

fun loop_writes :: "nat list \<Rightarrow> int \<Rightarrow> (nat \<rightharpoonup> int)" where
  "loop_writes [] j = Map.empty"
| "loop_writes (u # us) j = [u \<mapsto> j] ++ loop_writes us (j + 1)"

definition lists_writes :: "nat list list \<Rightarrow> (nat \<rightharpoonup> int)" where
  "lists_writes uss = foldl (\<lambda>m us. m ++ loop_writes us 0) Map.empty uss"

definition player_writes :: "player \<Rightarrow> (nat \<rightharpoonup> int)" where
  "player_writes p =
     (\<lambda>u. if u \<in> set (plr_units p) then Some 0 else None)
       ++ lists_writes (map units_supported (plr_cities p))"

definition players_writes :: "player list \<Rightarrow> (nat \<rightharpoonup> int)" where
  "players_writes ps = foldl (\<lambda>m p. m ++ player_writes p) Map.empty ps"

section \<open>Notions for the worklist table\<close>

text \<open>The worklist record that the specification describes, for a record path, a worklist and a
  number \<open>m\<close> of slot pairs: the length, then for each \<open>d < m\<close> the pair \<open>wl_kind\<close>\<^emph>\<open>d\<close>,
  \<open>wl_value\<close>\<^emph>\<open>d\<close>, holding the kind and the rule name of entry \<open>d\<close> of the worklist when there
  is one and the empty string in both slots otherwise.\<close>

definition worklist_slots :: "parg \<Rightarrow> universal list \<Rightarrow> nat \<Rightarrow> secfile" where
  "worklist_slots path_str wl m =
     concat (map (\<lambda>d.
        [((''%s.wl_kind%d'', [path_str, PI (int d)]),
          VStr (if d < length wl then universal_type_rule_name (wl ! d) else [])),
         ((''%s.wl_value%d'', [path_str, PI (int d)]),
          VStr (if d < length wl then universal_rule_name (wl ! d) else []))])
       [0..<m])"

definition worklist_record :: "parg \<Rightarrow> universal list \<Rightarrow> nat \<Rightarrow> secfile" where
  "worklist_record path_str wl m =
     ((''%s.wl_length'', [path_str]), VInt (int (length wl))) # worklist_slots path_str wl m"

text \<open>The path of the record of the city at position \<open>i\<close> of a player's city list, as
  \<open>worklist_save\<close> receives it.\<close>

definition city_path :: "player \<Rightarrow> nat \<Rightarrow> parg" where
  "city_path plr i = PF ''%s'' [PF ''player%d.c%d'' [PI (int (player_number plr)), PI (int i)]]"

text \<open>Whether an entry of the document is a worklist slot of the record at a path: its key
  is formatted by \<open>%s.wl_kind%d\<close> or \<open>%s.wl_value%d\<close> from that path and one more
  argument.\<close>

definition wl_slot_of :: "parg \<Rightarrow> path \<times> sval \<Rightarrow> bool" where
  "wl_slot_of path_str e =
     (case fst e of
        (fmt, args) \<Rightarrow>
          (fmt = ''%s.wl_kind%d'' \<or> fmt = ''%s.wl_value%d'')
          \<and> length args = 2 \<and> hd args = path_str)"

section \<open>Notions for the stages\<close>

text \<open>What every function called after the terrain lines are written keeps: the scenario
  flag, the decision on player data, the record of the calls, and every entry of the
  document other than the one of \<open>savefile.options\<close>, which \<open>secfile_replace_str\<close>
  overwrites.\<close>

definition grows :: "sg \<Rightarrow> sg \<Rightarrow> bool" where
  "grows s s' \<longleftrightarrow>
     scenario s' = scenario s \<and> save_players s' = save_players s \<and> invoked s' = invoked s
     \<and> (\<forall>e \<in> set (secfile s). fst e \<noteq> (''savefile.options'', []) \<longrightarrow> e \<in> set (secfile s'))"

text \<open>The terrain line of row \<open>y\<close>.\<close>

definition terrain_line :: "civ_map \<Rightarrow> nat \<Rightarrow> path \<times> sval" where
  "terrain_line m y =
     ((''map.t%04d'', [PI (int y)]),
      VStr (map (\<lambda>x. terrain2char (t_terrain (native_pos_to_tile m x y))) [0..<xsize m]))"

text \<open>The state of a save with the scenario flag set after its first \<open>k\<close> stages.\<close>

definition scenario_save_after :: "game \<Rightarrow> secfile \<Rightarrow> string \<Rightarrow> unit_store \<Rightarrow> nat \<Rightarrow> sg" where
  "scenario_save_after g f reason st k =
     run_stages (take k (save_stages g)) (savedata_new f reason True st)"

section \<open>Example inputs\<close>

text \<open>A stored grid section of width 2 and height 2 whose row 0 is cut to one character,
  read into tiles that start at an unknown value.\<close>

definition demo_lookup :: "nat \<Rightarrow> string option" where
  "demo_lookup y = (if y = 0 then Some ''g'' else Some ''hm'')"

definition demo_decode :: "char \<Rightarrow> string" where
  "demo_decode ch =
     (if ch = CHR ''g'' then ''Grassland'' else if ch = CHR ''h'' then ''Hills''
      else if ch = CHR ''m'' then ''Mountains'' else ''Unknown'')"

definition demo_grid :: "nat \<times> nat \<Rightarrow> string" where
  "demo_grid p = ''Unknown''"

text \<open>Index windows: one with an absent slot before a present one, and one for each class
  whose absent slots come last.\<close>

definition gap_window :: "int window" where
  "gap_window = (- 1, 0, - 1, - 1)"

definition demo_special_window :: "nat window" where
  "demo_special_window = (4, 5, 6, 6)"

definition demo_base_window :: "int window" where
  "demo_base_window = (4, - 1, - 1, - 1)"

definition demo_road_window :: "int window" where
  "demo_road_window = (0, 1, 2, 3)"

text \<open>A map of two tiles in one row: the first is owned by player 0 and worked by city 7.\<close>

definition demo_tile :: "nat \<Rightarrow> nat \<Rightarrow> tile" where
  "demo_tile x y =
     \<lparr>t_terrain = (if x = 0 then Some ''Grassland'' else Some ''Ocean''),
      t_spec_sprite = None, t_label = None, t_bases = {}, t_roads = {}, t_special = {},
      t_resource = None,
      t_owner = (if x = 0 then Some 0 else None),
      t_claimer = (if x = 0 then Some 0 else None),
      t_worked = (if x = 0 then Some 7 else None),
      t_units = (if x = 0 then [10, 11] else [12]),
      t_known = (if x = 0 then {0} else {})\<rparr>"

definition demo_map :: civ_map where
  "demo_map = \<lparr>xsize = 2, ysize = 1, map_is_empty = False, native_pos_to_tile = demo_tile\<rparr>"

text \<open>A game on that map: one player with three units and two cities, the first city
  supporting two of the units and having an empty worklist, the second supporting none
  and having a worklist of three entries. The game was saved as a scenario without player
  data.\<close>

definition demo_unit :: fc_unit where
  "demo_unit = \<lparr>u_fields_head = [(''id'', VInt 100)], ord_map = - 1, ord_city = - 1,
                u_fields_tail = [(''moved'', VBool False)]\<rparr>"

definition demo_units :: unit_store where
  "demo_units punit = demo_unit"

definition demo_city_a :: city where
  "demo_city_a =
     \<lparr>c_fields_head = [(''id'', VInt 7)], city_radius_sq = 5, c_built = (\<lambda>k. k = 0),
      c_worklist = [], c_fields_tail = [(''option0'', VBool False)],
      citizens_nation_get = (\<lambda>slot. 0), units_supported = [11, 10]\<rparr>"

definition demo_city_b :: city where
  "demo_city_b =
     \<lparr>c_fields_head = [(''id'', VInt 8)], city_radius_sq = 5, c_built = (\<lambda>k. False),
      c_worklist = [(''Improvement'', ''Barracks''), (''Unit'', ''Settlers''),
                    (''Improvement'', ''Library'')],
      c_fields_tail = [(''option0'', VBool True)],
      citizens_nation_get = (\<lambda>slot. 0), units_supported = []\<rparr>"

definition demo_player :: player where
  "demo_player =
     \<lparr>player_number = 0, plr_main_fields = [(''name'', VStr ''Caesar'')],
      plr_cities = [demo_city_a, demo_city_b], plr_units = [10, 11, 12],
      plr_attribute_fields = []\<rparr>"

definition demo_scenario :: game_scenario where
  "demo_scenario =
     \<lparr>is_scenario = True, scenario_name = ''Demo'', scenario_description = [],
      scenario_players = False, startpos_nations = False\<rparr>"

definition demo_server_states_name :: "server_states \<Rightarrow> string" where
  "demo_server_states_name st =
     (case st of S_S_INITIAL \<Rightarrow> ''S_S_INITIAL'' | S_S_RUNNING \<Rightarrow> ''S_S_RUNNING''
      | S_S_OVER \<Rightarrow> ''S_S_OVER'')"

definition demo_info :: game_info where
  "demo_info =
     \<lparr>game_version = 20500, is_new_game = False, server_state = S_S_RUNNING,
      server_states_name = demo_server_states_name,
      meta_patches = [], meta_addr_port = [], game_identifier = ''id'', serverid = [],
      skill_level = 0, phase_mode = 0, phase = 0, turn = 1, year = - 4000,
      year_0_hack = False, globalwarming = 0, heating = 0, warminglevel = 0,
      nuclearwinter = 0, cooling = 0, coolinglevel = 0, global_advances = (\<lambda>t. False),
      citizen_nationality = False\<rparr>"

definition demo_control :: game_control where
  "demo_control =
     \<lparr>improvement_names = [''Barracks'', ''Library''], num_tech_types = 1,
      advance_rule_name = (\<lambda>t. []), activity_names = [], trait_names = [],
      special_names = [''Irrigation'', ''Mine''], base_names = [''Fortress''],
      road_names = [''Road''], MAX_NUM_ITEMS = 200, MAX_LEN_WORKLIST = 64,
      RESOURCE_NONE_IDENTIFIER = CHR '' '', S_OLD_RIVER = 7\<rparr>"

definition demo_slot_is_used :: "nat \<Rightarrow> bool" where
  "demo_slot_is_used n = (n = 0)"

definition demo_game :: game where
  "demo_game =
     \<lparr>g_scenario = demo_scenario, info = demo_info, control = demo_control,
      gmap = demo_map, players = [demo_player], shuffled_players = [0],
      game_was_started = True, great_wonder_destroyed = (\<lambda>k. False), identity_number = 100,
      player_slot_max_used_number = 0, player_slot_is_used = demo_slot_is_used,
      script_server_state = [], settings_game = [], mapimg_defs = []\<rparr>"

text \<open>The same game as a scenario with player data.\<close>

definition demo_game_players :: game where
  "demo_game_players = demo_game\<lparr>g_scenario := demo_scenario\<lparr>scenario_players := True\<rparr>\<rparr>"

text \<open>The same game under a ruleset of 201 improvements, one more than the improvement
  string of a city has room for: the save of the first city sets the flag to false.\<close>

definition demo_game_overflow :: game where
  "demo_game_overflow =
     demo_game\<lparr>control := demo_control\<lparr>improvement_names := replicate 201 ''Barracks''\<rparr>\<rparr>"

text \<open>A save state whose flag a stage has set to false.\<close>

definition demo_failed :: sg where
  "demo_failed = (savedata_new [] ''quit'' False demo_units)\<lparr>sg_success := False\<rparr>"

section \<open>Properties of the encoding tables\<close>

text \<open>
  Claim C9, as amended. Each encoding is injective on the members of its enumeration other
  than the counting member, with one exception that the switch of \<open>activity2char\<close> writes
  out: \<open>ACTIVITY_UNKNOWN\<close> and \<open>ACTIVITY_PATROL_UNUSED\<close> share the case that returns the
  question mark. Two distinct orders get distinct characters, two distinct directions get
  distinct characters, and two distinct activities get distinct characters unless they are
  these two.
\<close>

theorem enum_encodings_injective:
  "(a \<noteq> ORDER_LAST \<and> b \<noteq> ORDER_LAST \<and> a \<noteq> b \<longrightarrow> order2char a \<noteq> order2char b)
   \<and> (d \<noteq> e \<longrightarrow> dir2char d \<noteq> dir2char e)
   \<and> (x \<noteq> ACTIVITY_LAST \<and> y \<noteq> ACTIVITY_LAST \<and> x \<noteq> y
        \<and> {x, y} \<noteq> {ACTIVITY_UNKNOWN, ACTIVITY_PATROL_UNUSED}
      \<longrightarrow> activity2char x \<noteq> activity2char y)"
proof (intro conjI impI)
  assume "a \<noteq> ORDER_LAST \<and> b \<noteq> ORDER_LAST \<and> a \<noteq> b"
  then show "order2char a \<noteq> order2char b"
    by (cases a; cases b; simp)
next
  assume "d \<noteq> e"
  then show "dir2char d \<noteq> dir2char e"
    by (cases d; cases e; simp)
next
  assume "x \<noteq> ACTIVITY_LAST \<and> y \<noteq> ACTIVITY_LAST \<and> x \<noteq> y
        \<and> {x, y} \<noteq> {ACTIVITY_UNKNOWN, ACTIVITY_PATROL_UNUSED}"
  then show "activity2char x \<noteq> activity2char y"
    by (cases x; cases y; simp add: doubleton_eq_iff)
qed

theorem enum_encodings_injective_witness:
  "order2char ORDER_MOVE \<noteq> order2char ORDER_FULL_MP
   \<and> dir2char DIR8_NORTH \<noteq> dir2char DIR8_SOUTH
   \<and> activity2char ACTIVITY_IDLE \<noteq> activity2char ACTIVITY_UNKNOWN"
  using enum_encodings_injective
          [of ORDER_MOVE ORDER_FULL_MP DIR8_NORTH DIR8_SOUTH ACTIVITY_IDLE ACTIVITY_UNKNOWN]
  by (simp add: doubleton_eq_iff)

text \<open>The claim as stated fails on the two activities that share the question mark.\<close>

theorem activity2char_not_injective:
  "ACTIVITY_UNKNOWN \<noteq> ACTIVITY_PATROL_UNUSED
   \<and> ACTIVITY_UNKNOWN \<noteq> ACTIVITY_LAST \<and> ACTIVITY_PATROL_UNUSED \<noteq> ACTIVITY_LAST
   \<and> activity2char ACTIVITY_UNKNOWN = activity2char ACTIVITY_PATROL_UNUSED"
  by simp

subsection \<open>The nibble of a window\<close>

lemma sg_special_bin_bit:
  assumes "sentinel_suffix (\<lambda>sp. sp \<ge> S) w" and "i < 4"
  shows "bit (sg_special_bin S specials w 0 0) i
           \<longleftrightarrow> slot w i < S \<and> contains_special specials (slot w i)"
proof -
  obtain a b c d where w: "w = (a, b, c, d)"
    by (cases w) auto
  from assms(2) consider "i = 0" | "i = 1" | "i = 2" | "i = 3"
    by linarith
  then show ?thesis
    using assms(1) unfolding w
    by cases (auto simp add: Let_def bit_or_iff bit_push_bit_iff bit_1_iff bit_Suc_0_iff)
qed

lemma sg_bases_bin_bit:
  assumes "sentinel_suffix (\<lambda>b. b < 0) w" and "i < 4"
  shows "bit (sg_bases_bin bases w 0 0) i \<longleftrightarrow> \<not> slot w i < 0 \<and> BV_ISSET bases (slot w i)"
proof -
  obtain a b c d where w: "w = (a, b, c, d)"
    by (cases w) auto
  from assms(2) consider "i = 0" | "i = 1" | "i = 2" | "i = 3"
    by linarith
  then show ?thesis
    using assms(1) unfolding w
    by cases (auto simp add: Let_def bit_or_iff bit_push_bit_iff bit_1_iff bit_Suc_0_iff)
qed

lemma sg_roads_bin_bit:
  assumes "sentinel_suffix (\<lambda>r. r < 0) w" and "i < 4"
  shows "bit (sg_roads_bin roads w 0 0) i \<longleftrightarrow> \<not> slot w i < 0 \<and> BV_ISSET roads (slot w i)"
proof -
  obtain a b c d where w: "w = (a, b, c, d)"
    by (cases w) auto
  from assms(2) consider "i = 0" | "i = 1" | "i = 2" | "i = 3"
    by linarith
  then show ?thesis
    using assms(1) unfolding w
    by cases (auto simp add: Let_def bit_or_iff bit_push_bit_iff bit_1_iff bit_Suc_0_iff)
qed

lemma sg_special_bin_less: "sg_special_bin S specials w 0 0 < 16"
  by (cases w) (simp add: Let_def)

lemma sg_bases_bin_less: "sg_bases_bin bases w 0 0 < 16"
  by (cases w) (simp add: Let_def)

lemma sg_roads_bin_less: "sg_roads_bin roads w 0 0 < 16"
  by (cases w) (simp add: Let_def)

lemma hex_chars_printable:
  assumes "n < 16"
  shows "hex_chars ! n \<in> set hex_chars \<and> fc_isprint (of_char (hex_chars ! n) AND 0x7f)"
proof -
  have "list_all (\<lambda>n. hex_chars ! n \<in> set hex_chars
                    \<and> fc_isprint (of_char (hex_chars ! n) AND 0x7f)) [0..<16]"
    by code_simp
  with assms show ?thesis
    by (simp add: list_all_iff)
qed

text \<open>
  Claim C3, as amended. For a window whose absent slots are its last ones (no present slot
  follows a slot holding the sentinel: \<open>S_LAST\<close> or more for specials, a negative index for
  bases and roads), each helper returns the hex character of a nibble below 16 whose bit
  \<open>i\<close>, for \<open>i < 4\<close>, is set exactly when slot \<open>i\<close> is present and the bit-set contains the
  value of the slot.
\<close>

theorem sg_get_nibble_of_window:
  assumes "sentinel_suffix (\<lambda>sp. sp \<ge> S) ws"
    and "sentinel_suffix (\<lambda>b. b < 0) wb"
    and "sentinel_suffix (\<lambda>r. r < 0) wr"
  shows "(\<exists>n<16. sg_special_get S specials ws = hex_chars ! n
            \<and> (\<forall>i<4. bit n i \<longleftrightarrow> slot ws i < S \<and> contains_special specials (slot ws i)))
       \<and> (\<exists>n<16. sg_bases_get bases wb = hex_chars ! n
            \<and> (\<forall>i<4. bit n i \<longleftrightarrow> \<not> slot wb i < 0 \<and> BV_ISSET bases (slot wb i)))
       \<and> (\<exists>n<16. sg_roads_get roads wr = hex_chars ! n
            \<and> (\<forall>i<4. bit n i \<longleftrightarrow> \<not> slot wr i < 0 \<and> BV_ISSET roads (slot wr i)))"
proof (intro conjI)
  show "\<exists>n<16. sg_special_get S specials ws = hex_chars ! n
          \<and> (\<forall>i<4. bit n i \<longleftrightarrow> slot ws i < S \<and> contains_special specials (slot ws i))"
    using sg_special_bin_less [of S specials ws] sg_special_bin_bit [OF assms(1)]
    unfolding sg_special_get_def by blast
next
  show "\<exists>n<16. sg_bases_get bases wb = hex_chars ! n
          \<and> (\<forall>i<4. bit n i \<longleftrightarrow> \<not> slot wb i < 0 \<and> BV_ISSET bases (slot wb i))"
    using sg_bases_bin_less [of bases wb] sg_bases_bin_bit [OF assms(2)]
    unfolding sg_bases_get_def by blast
next
  show "\<exists>n<16. sg_roads_get roads wr = hex_chars ! n
          \<and> (\<forall>i<4. bit n i \<longleftrightarrow> \<not> slot wr i < 0 \<and> BV_ISSET roads (slot wr i))"
    using sg_roads_bin_less [of roads wr] sg_roads_bin_bit [OF assms(3)]
    unfolding sg_roads_get_def by blast
qed

theorem sg_get_nibble_of_window_witness:
  "sentinel_suffix (\<lambda>sp. sp \<ge> 6) demo_special_window
   \<and> sentinel_suffix (\<lambda>b. b < 0) demo_base_window
   \<and> sentinel_suffix (\<lambda>r. r < 0) demo_road_window
   \<and> (\<exists>n<16. sg_special_get 6 {4} demo_special_window = hex_chars ! n
         \<and> (\<forall>i<4. bit n i \<longleftrightarrow> slot demo_special_window i < 6
                                 \<and> contains_special {4} (slot demo_special_window i)))
   \<and> (\<exists>n<16. sg_bases_get {4} demo_base_window = hex_chars ! n
         \<and> (\<forall>i<4. bit n i \<longleftrightarrow> \<not> slot demo_base_window i < 0
                                 \<and> BV_ISSET {4} (slot demo_base_window i)))
   \<and> (\<exists>n<16. sg_roads_get {1, 3} demo_road_window = hex_chars ! n
         \<and> (\<forall>i<4. bit n i \<longleftrightarrow> \<not> slot demo_road_window i < 0
                                 \<and> BV_ISSET {1, 3} (slot demo_road_window i)))"
proof -
  have s: "sentinel_suffix (\<lambda>sp. sp \<ge> 6) demo_special_window"
    by (simp add: demo_special_window_def)
  have b: "sentinel_suffix (\<lambda>b. b < 0) demo_base_window"
    by (simp add: demo_base_window_def)
  have r: "sentinel_suffix (\<lambda>r. r < 0) demo_road_window"
    by (simp add: demo_road_window_def)
  show ?thesis
    using s b r sg_get_nibble_of_window [OF s b r, of "{4}" "{4}" "{1, 3}"]
    by simp
qed

text \<open>The claim as stated fails on a window with an absent slot before a present one: the
  loop leaves at the first sentinel, so the base in slot 1 is not packed.\<close>

theorem sg_bases_get_gap_window:
  "\<not> slot gap_window 1 < 0 \<and> BV_ISSET {0} (slot gap_window 1)
   \<and> \<not> bit (sg_bases_bin {0} gap_window 0 0) 1
   \<and> sg_bases_get {0} gap_window = CHR ''0''"
  by (simp add: sg_bases_get_def gap_window_def BV_ISSET_def hex_chars_def)

text \<open>
  Claim C10. The three helpers are total; the nibble they accumulate is below 16, so the
  index into \<open>hex_chars\<close> is in bounds and the result is one of its sixteen characters; and
  every such character passes the check \<open>fc_isprint(c & 0x7f)\<close> of \<open>SAVE_MAP_CHAR\<close>.
\<close>

theorem sg_get_hex_total:
  "sg_special_bin S specials ws 0 0 < 16
   \<and> sg_bases_bin bases wb 0 0 < 16
   \<and> sg_roads_bin roads wr 0 0 < 16
   \<and> sg_special_get S specials ws \<in> set hex_chars
   \<and> sg_bases_get bases wb \<in> set hex_chars
   \<and> sg_roads_get roads wr \<in> set hex_chars
   \<and> length hex_chars = 16
   \<and> fc_isprint (of_char (sg_special_get S specials ws) AND 0x7f)
   \<and> fc_isprint (of_char (sg_bases_get bases wb) AND 0x7f)
   \<and> fc_isprint (of_char (sg_roads_get roads wr) AND 0x7f)"
  using hex_chars_printable [OF sg_special_bin_less [of S specials ws]]
        hex_chars_printable [OF sg_bases_bin_less [of bases wb]]
        hex_chars_printable [OF sg_roads_bin_less [of roads wr]]
        sg_special_bin_less [of S specials ws] sg_bases_bin_less [of bases wb]
        sg_roads_bin_less [of roads wr]
  by (simp add: sg_special_get_def sg_bases_get_def sg_roads_get_def hex_chars_def)

text \<open>
  Claim C4, at the failing input. With a single base type and a single road type, group 0
  is the only nibble group; the windows built for it hold the indices 0, 1, 2, 3 and no
  sentinel, because the test compares \<open>4 * j + 1\<close> and not \<open>4 * j + l\<close> with the number of
  types. The window for the specials, built with \<open>MIN(4 * j + l, S_LAST)\<close>, holds the
  sentinel in the slots 1, 2 and 3.
\<close>

theorem bases_roads_window_single_type:
  "bases_mod 1 0 = (0, 1, 2, 3) \<and> roads_mod 1 0 = (0, 1, 2, 3)
   \<and> specials_mod False s_old_river 1 0 = (0, 1, 1, 1)"
  by (simp add: bases_mod_def roads_mod_def specials_mod_def)

text \<open>
  Claim C5, at the failing input. On a row of two tiles, the first worked by city 7, the
  worked-by line ends with a separator: two tokens and two commas. The ownership and
  claimer-source lines of the same row have the single separator between their two tokens.
\<close>

theorem map_worked_line_trailing_separator:
  "xsize demo_map = 2
   \<and> map_worked_line demo_map 0 = ''7,-,''
   \<and> map_owner_line demo_map True 0 = ''0,-''
   \<and> map_source_line demo_map 0 = ''0,-''"
  by code_simp

section \<open>Properties of the map macros\<close>

lemma set_row_other:
  "y' \<noteq> y \<Longrightarrow>
   foldl (\<lambda>g x. set_tile_value decode (line ! x) x y g) g xs (x', y') = g (x', y')"
  by (induction xs arbitrary: g) (simp_all add: set_tile_value_def)

lemma set_row_same:
  "distinct xs \<Longrightarrow>
   foldl (\<lambda>g x. set_tile_value decode (line ! x) x y g) g xs (x', y)
     = (if x' \<in> set xs then decode (line ! x') else g (x', y))"
  by (induction xs arbitrary: g) (auto simp add: set_tile_value_def)

lemma set_row:
  "foldl (\<lambda>g x. set_tile_value decode (line ! x) x y g) g [0..<w] (x', y')
     = (if y' = y \<and> x' < w then decode (line ! x') else g (x', y'))"
proof (cases "y' = y")
  case True
  then show ?thesis
    using set_row_same [of "[0..<w]" decode line y g x'] by simp
next
  case False
  then show ?thesis
    using set_row_other [of y' y decode line g "[0..<w]" x'] by simp
qed

lemma load_map_rows_fst:
  "distinct ys \<Longrightarrow>
   fst (load_map_rows (set_tile_value decode) lookup w ys (g, b)) (x, y) =
     (if y \<in> set ys \<and> x < w \<and> (\<exists>l. lookup y = Some l \<and> length l = w)
      then decode (the (lookup y) ! x) else g (x, y))"
proof (induction ys arbitrary: g b)
  case Nil
  then show ?case by simp
next
  case (Cons a ys)
  then show ?case
    by (auto simp add: set_row split: option.splits)
qed

lemma load_map_rows_snd:
  "snd (load_map_rows set_xy lookup w ys (g, b)) =
     (b \<or> (\<exists>y \<in> set ys. \<forall>l. lookup y = Some l \<longrightarrow> length l \<noteq> w))"
  by (induction ys arbitrary: g b) (auto split: option.splits)

text \<open>
  Claim C1, as amended. For every grid attribute class (every decoding of a character into
  a tile value) and every row of the map: if the stored line of the row is cut to length
  \<open>W - 1\<close>, loading the section prints the warning and skips the row as a whole, so that
  every tile of the row keeps the value it had; the rows whose line has length \<open>W\<close> are
  decoded in full.
\<close>

theorem load_map_char_short_line:
  assumes "y0 < h" and "lookup y0 = Some line" and "0 < w" and "length line = w - 1"
  shows "snd (LOAD_MAP_CHAR (set_tile_value decode) lookup w h g)
       \<and> (\<forall>x. fst (LOAD_MAP_CHAR (set_tile_value decode) lookup w h g) (x, y0) = g (x, y0))
       \<and> (\<forall>y l x. y < h \<and> lookup y = Some l \<and> length l = w \<and> x < w \<longrightarrow>
             fst (LOAD_MAP_CHAR (set_tile_value decode) lookup w h g) (x, y) = decode (l ! x))"
proof -
  have bad: "length line \<noteq> w"
    using assms(3,4) by simp
  have "snd (LOAD_MAP_CHAR (set_tile_value decode) lookup w h g)"
    unfolding LOAD_MAP_CHAR_def load_map_rows_snd using assms(1,2) bad
    by (auto intro!: bexI [of _ y0])
  moreover
  have "\<forall>x. fst (LOAD_MAP_CHAR (set_tile_value decode) lookup w h g) (x, y0) = g (x, y0)"
    unfolding LOAD_MAP_CHAR_def using assms(2) bad by (simp add: load_map_rows_fst)
  moreover
  have "\<forall>y l x. y < h \<and> lookup y = Some l \<and> length l = w \<and> x < w \<longrightarrow>
          fst (LOAD_MAP_CHAR (set_tile_value decode) lookup w h g) (x, y) = decode (l ! x)"
    unfolding LOAD_MAP_CHAR_def by (simp add: load_map_rows_fst)
  ultimately show ?thesis
    by blast
qed

theorem load_map_char_short_line_witness:
  "(0::nat) < 2 \<and> demo_lookup 0 = Some ''g'' \<and> length ''g'' = 2 - 1
   \<and> snd (LOAD_MAP_CHAR (set_tile_value demo_decode) demo_lookup 2 2 demo_grid)
   \<and> fst (LOAD_MAP_CHAR (set_tile_value demo_decode) demo_lookup 2 2 demo_grid) (0, 0)
       = demo_grid (0, 0)
   \<and> fst (LOAD_MAP_CHAR (set_tile_value demo_decode) demo_lookup 2 2 demo_grid) (1, 1)
       = ''Mountains''"
proof -
  have l0: "demo_lookup 0 = Some ''g''" and l1: "demo_lookup 1 = Some ''hm''"
    by (simp_all add: demo_lookup_def)
  have t: "snd (LOAD_MAP_CHAR (set_tile_value demo_decode) demo_lookup 2 2 demo_grid)
       \<and> (\<forall>x. fst (LOAD_MAP_CHAR (set_tile_value demo_decode) demo_lookup 2 2 demo_grid) (x, 0)
                = demo_grid (x, 0))
       \<and> (\<forall>y l x. y < 2 \<and> demo_lookup y = Some l \<and> length l = 2 \<and> x < 2 \<longrightarrow>
             fst (LOAD_MAP_CHAR (set_tile_value demo_decode) demo_lookup 2 2 demo_grid) (x, y)
               = demo_decode (l ! x))"
    using load_map_char_short_line [of 0 2 demo_lookup "''g''" 2 demo_decode demo_grid] l0
    by simp
  from t have u: "\<And>y l x. y < 2 \<and> demo_lookup y = Some l \<and> length l = 2 \<and> x < 2 \<Longrightarrow>
      fst (LOAD_MAP_CHAR (set_tile_value demo_decode) demo_lookup 2 2 demo_grid) (x, y)
        = demo_decode (l ! x)"
    by blast
  have "fst (LOAD_MAP_CHAR (set_tile_value demo_decode) demo_lookup 2 2 demo_grid) (1, 1)
          = demo_decode (''hm'' ! 1)"
    using u [of 1 "''hm''" 1] l1 by simp
  with t l0 show ?thesis
    by (simp add: demo_decode_def)
qed

text \<open>The claim as stated fails: of the row cut to one character, the first tile is not
  decoded from the character that is there.\<close>

theorem load_map_char_discards_short_row:
  "length (the (demo_lookup 0)) = 2 - 1
   \<and> demo_decode (the (demo_lookup 0) ! 0) = ''Grassland''
   \<and> fst (LOAD_MAP_CHAR (set_tile_value demo_decode) demo_lookup 2 2 demo_grid) (0, 0)
       = ''Unknown''"
  by code_simp

section \<open>Properties of the unit ordering\<close>

lemma set_ords_empty [simp]: "set_ords Map.empty Map.empty st = st"
  by (rule ext) (simp add: set_ords_def)

lemma set_ords_comp:
  "set_ords oc2 om2 (set_ords oc1 om1 st) = set_ords (oc1 ++ oc2) (om1 ++ om2) st"
  by (rule ext) (simp add: set_ords_def map_add_def split: option.splits)

lemma map_add_self: "m ++ m = (m :: 'a \<rightharpoonup> 'b)"
  by (rule ext) (simp add: map_add_def split: option.splits)

lemma set_ords_idem: "set_ords oc om (set_ords oc om st) = set_ords oc om st"
  by (simp add: set_ords_comp map_add_self)

lemma upd_ord_city: "st(u := (st u)\<lparr>ord_city := j\<rparr>) = set_ords [u \<mapsto> j] Map.empty st"
  by (rule ext) (simp add: set_ords_def)

lemma upd_ord_map: "st(u := (st u)\<lparr>ord_map := j\<rparr>) = set_ords Map.empty [u \<mapsto> j] st"
  by (rule ext) (simp add: set_ords_def)

lemma ord_city_loop_eq: "ord_city_loop us j st = set_ords (loop_writes us j) Map.empty st"
  by (induction us arbitrary: j st) (simp_all add: upd_ord_city set_ords_comp)

lemma ord_map_loop_eq: "ord_map_loop us j st = set_ords Map.empty (loop_writes us j) st"
  by (induction us arbitrary: j st) (simp_all add: upd_ord_map set_ords_comp)

lemma ord_city_reset_eq:
  "ord_city_reset us st = set_ords (\<lambda>u. if u \<in> set us then Some 0 else None) Map.empty st"
proof (induction us arbitrary: st rule: rev_induct)
  case Nil
  then show ?case by (simp add: ord_city_reset_def)
next
  case (snoc x xs)
  have "(\<lambda>u. if u \<in> set xs then Some (0::int) else None) ++ [x \<mapsto> 0]
          = (\<lambda>u. if u \<in> set (xs @ [x]) then Some 0 else None)"
    by (rule ext) (simp add: map_add_def)
  with snoc show ?case
    by (simp add: ord_city_reset_def upd_ord_city set_ords_comp)
qed

lemma cities_loop_eq:
  "foldl (\<lambda>st pcity. ord_city_loop (units_supported pcity) 0 st) (set_ords oc om st) cs
     = set_ords (oc ++ lists_writes (map units_supported cs)) om st"
proof (induction cs rule: rev_induct)
  case Nil
  then show ?case by (simp add: lists_writes_def)
next
  case (snoc c cs)
  then show ?case
    by (simp add: lists_writes_def ord_city_loop_eq set_ords_comp)
qed

lemma lists_writes_snoc: "lists_writes (uss @ [us]) = lists_writes uss ++ loop_writes us 0"
  by (simp add: lists_writes_def)

lemma ord_city_player_eq: "ord_city_player p st = set_ords (player_writes p) Map.empty st"
  unfolding ord_city_player_def ord_city_reset_eq cities_loop_eq player_writes_def ..

lemma players_loop_eq:
  "foldl (\<lambda>st pplayer. ord_city_player pplayer st) st ps = set_ords (players_writes ps) Map.empty st"
  by (induction ps rule: rev_induct)
     (simp_all add: players_writes_def ord_city_player_eq set_ords_comp)

lemma tiles_loop_eq:
  "foldl (\<lambda>st ptile. ord_map_loop (t_units ptile) 0 st) (set_ords oc om st) ts
     = set_ords oc (om ++ lists_writes (map t_units ts)) st"
  by (induction ts rule: rev_induct)
     (simp_all add: lists_writes_def ord_map_loop_eq set_ords_comp)

lemma unit_ordering_calc_eq:
  "unit_ordering_calc g st =
     set_ords (players_writes (players g)) (lists_writes (map t_units (whole_map_tiles (gmap g)))) st"
  unfolding unit_ordering_calc_def players_loop_eq tiles_loop_eq by simp

lemma dom_loop_writes [simp]: "dom (loop_writes us j) = set us"
  by (induction us arbitrary: j) auto

lemma loop_writes_nth:
  "distinct us \<Longrightarrow> i < length us \<Longrightarrow> loop_writes us j (us ! i) = Some (j + int i)"
proof (induction us arbitrary: j i)
  case Nil
  then show ?case by simp
next
  case (Cons u us)
  show ?case
  proof (cases i)
    case 0
    have "u \<notin> dom (loop_writes us (j + 1))" using Cons.prems(1) by simp
    then have "loop_writes us (j + 1) u = None" by blast
    then show ?thesis using 0 by (simp add: map_add_def)
  next
    case (Suc k)
    then have "loop_writes us (j + 1) (us ! k) = Some (j + 1 + int k)"
      using Cons by simp
    then show ?thesis using Suc by (simp add: map_add_def)
  qed
qed

lemma dom_lists_writes [simp]: "dom (lists_writes uss) = set (concat uss)"
  by (induction uss rule: rev_induct) (auto simp add: lists_writes_snoc, simp add: lists_writes_def)

lemma lists_writes_nth:
  "distinct (concat uss) \<Longrightarrow> us \<in> set uss \<Longrightarrow> i < length us \<Longrightarrow>
   lists_writes uss (us ! i) = Some (int i)"
proof (induction uss rule: rev_induct)
  case Nil
  then show ?case by simp
next
  case (snoc vs uss)
  from snoc.prems(1) have d: "distinct (concat uss)" "distinct vs"
    and disj: "set (concat uss) \<inter> set vs = {}"
    by auto
  show ?case
  proof (cases "us ! i \<in> set vs")
    case True
    have "us = vs"
    proof (rule ccontr)
      assume "us \<noteq> vs"
      with snoc.prems(2) have "us \<in> set uss" by simp
      with snoc.prems(3) have "us ! i \<in> set (concat uss)"
        by (auto intro!: bexI [of _ us])
      with True disj show False by blast
    qed
    with d(2) snoc.prems(3) show ?thesis
      by (simp add: lists_writes_snoc loop_writes_nth)
  next
    case False
    then have n: "loop_writes vs 0 (us ! i) = None"
      using dom_loop_writes [of vs 0] by blast
    from False snoc.prems(2,3) have "us \<in> set uss"
      by (auto dest: nth_mem)
    with snoc.IH d(1) snoc.prems(3) n show ?thesis
      by (simp add: lists_writes_snoc map_add_def)
  qed
qed


lemma players_writes_snoc: "players_writes (ps @ [q]) = players_writes ps ++ player_writes q"
  by (simp add: players_writes_def)

lemma dom_player_writes:
  "dom (player_writes p) = set (plr_units p) \<union> set (concat (map units_supported (plr_cities p)))"
proof -
  have "dom (\<lambda>u. if u \<in> set (plr_units p) then Some (0::int) else None) = set (plr_units p)"
    by (auto simp add: dom_def)
  then show ?thesis
    unfolding player_writes_def dom_map_add dom_lists_writes by (simp add: Un_commute)
qed

lemma players_units_wf_snoc:
  assumes "players_units_wf (ps @ [q])"
  shows "players_units_wf ps"
    and "set (concat (map plr_units ps)) \<inter> set (plr_units q) = {}"
    and "distinct (concat (map units_supported (plr_cities q)))"
    and "\<forall>c \<in> set (plr_cities q). set (units_supported c) \<subseteq> set (plr_units q)"
  using assms by (auto simp add: players_units_wf_def)

lemma player_writes_outside:
  assumes "\<forall>c \<in> set (plr_cities q). set (units_supported c) \<subseteq> set (plr_units q)"
    and "u \<notin> set (plr_units q)"
  shows "player_writes q u = None"
proof -
  have "u \<notin> dom (player_writes q)"
    unfolding dom_player_writes using assms by auto
  then show ?thesis by blast
qed

lemma players_writes_supported:
  assumes "players_units_wf ps" and "p \<in> set ps" and "c \<in> set (plr_cities p)"
    and "i < length (units_supported c)"
  shows "players_writes ps (units_supported c ! i) = Some (int i)"
  using assms
proof (induction ps rule: rev_induct)
  case Nil
  then show ?case by simp
next
  case (snoc q ps)
  note wf = players_units_wf_snoc [OF snoc.prems(1)]
  let ?u = "units_supported c ! i"
  have sub: "set (units_supported c) \<subseteq> set (plr_units p)"
    using snoc.prems(1,2,3) unfolding players_units_wf_def by blast
  have up: "?u \<in> set (plr_units p)"
    using sub snoc.prems(4) nth_mem by blast
  show ?case
  proof (cases "?u \<in> set (plr_units q)")
    case True
    have "p \<notin> set ps"
    proof
      assume "p \<in> set ps"
      with up have "?u \<in> set (concat (map plr_units ps))" by auto
      with True wf(2) show False by blast
    qed
    with snoc.prems(2) have pq: "p = q" by simp
    have "units_supported c \<in> set (map units_supported (plr_cities q))"
      using snoc.prems(3) pq by simp
    from lists_writes_nth [OF wf(3) this snoc.prems(4)]
    show ?thesis
      by (simp add: players_writes_snoc player_writes_def)
  next
    case False
    have n: "player_writes q ?u = None"
      using player_writes_outside [OF wf(4) False] .
    from False up have "p \<noteq> q" by auto
    with snoc.prems(2) have "p \<in> set ps" by simp
    from snoc.IH [OF wf(1) this snoc.prems(3,4)] n show ?thesis
      by (simp add: players_writes_snoc map_add_def)
  qed
qed

lemma players_writes_unsupported:
  assumes "players_units_wf ps" and "p \<in> set ps" and "u \<in> set (plr_units p)"
    and "u \<notin> set (concat (map units_supported (concat (map plr_cities ps))))"
  shows "players_writes ps u = Some 0"
  using assms
proof (induction ps rule: rev_induct)
  case Nil
  then show ?case by simp
next
  case (snoc q ps)
  note wf = players_units_wf_snoc [OF snoc.prems(1)]
  show ?case
  proof (cases "u \<in> set (plr_units q)")
    case True
    have "u \<notin> dom (lists_writes (map units_supported (plr_cities q)))"
      using snoc.prems(4) by simp
    then have "lists_writes (map units_supported (plr_cities q)) u = None"
      by blast
    with True show ?thesis
      by (simp add: players_writes_snoc player_writes_def map_add_def)
  next
    case False
    have n: "player_writes q u = None"
      using player_writes_outside [OF wf(4) False] .
    from False snoc.prems(3) have "p \<noteq> q" by auto
    with snoc.prems(2) have p: "p \<in> set ps" by simp
    have "u \<notin> set (concat (map units_supported (concat (map plr_cities ps))))"
      using snoc.prems(4) by simp
    from snoc.IH [OF wf(1) p snoc.prems(3) this] n show ?thesis
      by (simp add: players_writes_snoc map_add_def)
  qed
qed

lemma ord_city_set_ords:
  "ord_city (set_ords oc om st u) = (case oc u of None \<Rightarrow> ord_city (st u) | Some v \<Rightarrow> v)"
  by (simp add: set_ords_def)

lemma ord_map_set_ords:
  "ord_map (set_ords oc om st u) = (case om u of None \<Rightarrow> ord_map (st u) | Some v \<Rightarrow> v)"
  by (simp add: set_ords_def)

text \<open>
  Claim C8. In a game whose unit lists are well formed, after \<open>unit_ordering_calc\<close> the
  \<open>ord_city\<close> fields of the units a city supports are 0, 1, ..., n-1 in the order of the
  city's list, the \<open>ord_map\<close> fields of the units on a tile are 0, 1, ..., m-1 in the order
  of the tile's list, every unit of a player that no city supports has \<open>ord_city\<close> 0, and
  running the pass on its own result changes nothing.
\<close>

theorem unit_ordering_calc_ordinals:
  assumes "units_wf g"
  shows "(\<forall>p \<in> set (players g). \<forall>c \<in> set (plr_cities p).
            map (\<lambda>u. ord_city (unit_ordering_calc g st u)) (units_supported c)
              = map int [0..<length (units_supported c)])
       \<and> (\<forall>t \<in> set (whole_map_tiles (gmap g)).
            map (\<lambda>u. ord_map (unit_ordering_calc g st u)) (t_units t)
              = map int [0..<length (t_units t)])
       \<and> (\<forall>p \<in> set (players g). \<forall>u \<in> set (plr_units p).
            (\<forall>c \<in> set (all_cities g). u \<notin> set (units_supported c))
              \<longrightarrow> ord_city (unit_ordering_calc g st u) = 0)
       \<and> unit_ordering_calc g (unit_ordering_calc g st) = unit_ordering_calc g st"
proof (intro conjI ballI impI)
  from assms have wfp: "players_units_wf (players g)"
    and wft: "distinct (concat (map t_units (whole_map_tiles (gmap g))))"
    by (simp_all add: units_wf_def)
  {
    fix p c assume p: "p \<in> set (players g)" and c: "c \<in> set (plr_cities p)"
    show "map (\<lambda>u. ord_city (unit_ordering_calc g st u)) (units_supported c)
            = map int [0..<length (units_supported c)]"
    proof (rule nth_equalityI)
      show "length (map (\<lambda>u. ord_city (unit_ordering_calc g st u)) (units_supported c))
              = length (map int [0..<length (units_supported c)])"
        by simp
    next
      fix i assume "i < length (map (\<lambda>u. ord_city (unit_ordering_calc g st u)) (units_supported c))"
      then have i: "i < length (units_supported c)" by simp
      from players_writes_supported [OF wfp p c i] i
      show "map (\<lambda>u. ord_city (unit_ordering_calc g st u)) (units_supported c) ! i
              = map int [0..<length (units_supported c)] ! i"
        by (simp add: unit_ordering_calc_eq ord_city_set_ords)
    qed
  }
  {
    fix t assume t: "t \<in> set (whole_map_tiles (gmap g))"
    show "map (\<lambda>u. ord_map (unit_ordering_calc g st u)) (t_units t)
            = map int [0..<length (t_units t)]"
    proof (rule nth_equalityI)
      show "length (map (\<lambda>u. ord_map (unit_ordering_calc g st u)) (t_units t))
              = length (map int [0..<length (t_units t)])"
        by simp
    next
      fix i assume "i < length (map (\<lambda>u. ord_map (unit_ordering_calc g st u)) (t_units t))"
      then have i: "i < length (t_units t)" by simp
      have "t_units t \<in> set (map t_units (whole_map_tiles (gmap g)))"
        using t by simp
      from lists_writes_nth [OF wft this i] i
      show "map (\<lambda>u. ord_map (unit_ordering_calc g st u)) (t_units t) ! i
              = map int [0..<length (t_units t)] ! i"
        by (simp add: unit_ordering_calc_eq ord_map_set_ords)
    qed
  }
  {
    fix p u assume p: "p \<in> set (players g)" and u: "u \<in> set (plr_units p)"
      and none: "\<forall>c \<in> set (all_cities g). u \<notin> set (units_supported c)"
    from none have "u \<notin> set (concat (map units_supported (concat (map plr_cities (players g)))))"
      by (auto simp add: all_cities_def)
    from players_writes_unsupported [OF wfp p u this]
    show "ord_city (unit_ordering_calc g st u) = 0"
      by (simp add: unit_ordering_calc_eq ord_city_set_ords)
  }
  show "unit_ordering_calc g (unit_ordering_calc g st) = unit_ordering_calc g st"
    by (simp add: unit_ordering_calc_eq set_ords_idem)
qed

theorem unit_ordering_calc_ordinals_witness:
  "units_wf demo_game
   \<and> map (\<lambda>u. ord_city (unit_ordering_calc demo_game demo_units u)) [11, 10] = [0, 1]
   \<and> map (\<lambda>u. ord_map (unit_ordering_calc demo_game demo_units u)) [10, 11] = [0, 1]
   \<and> ord_city (unit_ordering_calc demo_game demo_units 12) = 0
   \<and> unit_ordering_calc demo_game (unit_ordering_calc demo_game demo_units)
       = unit_ordering_calc demo_game demo_units"
proof -
  have wf: "units_wf demo_game"
    by code_simp
  note t = unit_ordering_calc_ordinals [OF wf, of demo_units]
  have p: "demo_player \<in> set (players demo_game)"
    by (simp add: demo_game_def)
  have c: "demo_city_a \<in> set (plr_cities demo_player)"
    by (simp add: demo_player_def)
  have tl: "demo_tile 0 0 \<in> set (whole_map_tiles (gmap demo_game))"
    by (simp add: demo_game_def whole_map_tiles_def whole_map_positions_def demo_map_def)
  have u: "12 \<in> set (plr_units demo_player)"
    by (simp add: demo_player_def)
  have n: "\<forall>c \<in> set (all_cities demo_game). 12 \<notin> set (units_supported c)"
    by (simp add: all_cities_def demo_game_def demo_player_def demo_city_a_def demo_city_b_def)
  from t p c have "map (\<lambda>u. ord_city (unit_ordering_calc demo_game demo_units u))
                     (units_supported demo_city_a)
                   = map int [0..<length (units_supported demo_city_a)]"
    by blast
  then have 1: "map (\<lambda>u. ord_city (unit_ordering_calc demo_game demo_units u)) [11, 10] = [0, 1]"
    by (simp add: demo_city_a_def upt_rec)
  from t tl have "map (\<lambda>u. ord_map (unit_ordering_calc demo_game demo_units u))
                     (t_units (demo_tile 0 0))
                   = map int [0..<length (t_units (demo_tile 0 0))]"
    by blast
  then have 2: "map (\<lambda>u. ord_map (unit_ordering_calc demo_game demo_units u)) [10, 11] = [0, 1]"
    by (simp add: demo_tile_def upt_rec)
  from t p u n have 3: "ord_city (unit_ordering_calc demo_game demo_units 12) = 0"
    by blast
  from t have 4: "unit_ordering_calc demo_game (unit_ordering_calc demo_game demo_units)
       = unit_ordering_calc demo_game demo_units"
    by blast
  from wf 1 2 3 4 show ?thesis
    by blast
qed

section \<open>Properties of the worklist table\<close>

lemma insert_all_eq: "insert_all s es = s\<lparr>secfile := secfile s @ es\<rparr>"
proof -
  have "foldl (\<lambda>f (p, v). secfile_insert f v p) f es = f @ es" for f
    by (induction es arbitrary: f) (auto simp add: secfile_insert_def)
  then show ?thesis by (simp add: insert_all_def)
qed

lemma foldl_insert_pairs:
  "foldl (\<lambda>f i. secfile_insert (secfile_insert f (a i) (p i)) (b i) (q i)) f xs
     = f @ concat (map (\<lambda>i. [(p i, a i), (q i, b i)]) xs)"
  by (induction xs arbitrary: f) (simp_all add: secfile_insert_def)

lemma worklist_save_eq:
  assumes "max_length \<le> maxwl" and "length wl \<le> max_length"
  shows "worklist_save maxwl f wl max_length path_str = f @ worklist_record path_str wl max_length"
proof -
  have split: "[0..<max_length] = [0..<length wl] @ [length wl..<max_length]"
    using assms(2) by (metis le_add_diff_inverse upt_add_eq_append zero_le)
  have a: "map (\<lambda>i. [((''%s.wl_kind%d'', [path_str, PI (int i)]), VStr (universal_type_rule_name (wl ! i))),
                      ((''%s.wl_value%d'', [path_str, PI (int i)]), VStr (universal_rule_name (wl ! i)))])
             [0..<length wl]
         = map (\<lambda>d. [((''%s.wl_kind%d'', [path_str, PI (int d)]),
                       VStr (if d < length wl then universal_type_rule_name (wl ! d) else [])),
                      ((''%s.wl_value%d'', [path_str, PI (int d)]),
                       VStr (if d < length wl then universal_rule_name (wl ! d) else []))])
             [0..<length wl]"
    by (rule map_cong) simp_all
  have b: "map (\<lambda>i. [((''%s.wl_kind%d'', [path_str, PI (int i)]), VStr []),
                      ((''%s.wl_value%d'', [path_str, PI (int i)]), VStr [])])
             [length wl..<max_length]
         = map (\<lambda>d. [((''%s.wl_kind%d'', [path_str, PI (int d)]),
                       VStr (if d < length wl then universal_type_rule_name (wl ! d) else [])),
                      ((''%s.wl_value%d'', [path_str, PI (int d)]),
                       VStr (if d < length wl then universal_rule_name (wl ! d) else []))])
             [length wl..<max_length]"
    by (rule map_cong) simp_all
  show ?thesis
    using assms(1)
    unfolding worklist_save_def Let_def foldl_insert_pairs worklist_record_def worklist_slots_def
    by (subst split) (simp add: secfile_insert_def a b)
qed

lemma wlist_max_length_snoc:
  "wlist_max_length (cs @ [c]) = max (wlist_max_length cs) (length (c_worklist c))"
  by (simp add: wlist_max_length_def max_def)

lemma wlist_max_length_Max:
  "wlist_max_length cs = Max (insert 0 ((\<lambda>c. length (c_worklist c)) ` set cs))"
proof (induction cs rule: rev_induct)
  case Nil
  then show ?case by (simp add: wlist_max_length_def)
next
  case (snoc c cs)
  have "Max (insert 0 ((\<lambda>c. length (c_worklist c)) ` set (cs @ [c])))
          = Max (insert (length (c_worklist c)) (insert 0 ((\<lambda>c. length (c_worklist c)) ` set cs)))"
    by (simp add: insert_commute)
  also have "\<dots> = max (length (c_worklist c)) (Max (insert 0 ((\<lambda>c. length (c_worklist c)) ` set cs)))"
    by (rule Max_insert) simp_all
  finally show ?case
    using snoc by (simp add: wlist_max_length_snoc max.commute)
qed

lemma wlist_max_length_ge: "c \<in> set cs \<Longrightarrow> length (c_worklist c) \<le> wlist_max_length cs"
  unfolding wlist_max_length_Max by (rule Max_ge) simp_all

lemma wlist_max_length_le:
  "\<forall>c \<in> set cs. length (c_worklist c) \<le> n \<Longrightarrow> wlist_max_length cs \<le> n"
  unfolding wlist_max_length_Max by simp

lemma record_fields_no_slot: "filter (wl_slot_of P) (record_fields buf fs) = []"
  by (simp add: record_fields_def wl_slot_of_def filter_empty_conv split_def)

lemma worklist_slots_length: "length (worklist_slots path_str wl m) = 2 * m"
  by (induction m) (simp_all add: worklist_slots_def)

lemma worklist_record_slots:
  "filter (wl_slot_of P) (worklist_record Q wl m) = (if P = Q then worklist_slots Q wl m else [])"
proof -
  have "filter (wl_slot_of P) (worklist_slots Q wl m) = (if P = Q then worklist_slots Q wl m else [])"
    by (induction m) (simp_all add: worklist_slots_def wl_slot_of_def)
  then show ?thesis
    by (simp add: worklist_record_def wl_slot_of_def)
qed

lemma save_city_shape:
  assumes "improvement_count g \<le> MAX_NUM_ITEMS (control g)"
    and "m \<le> MAX_LEN_WORKLIST (control g)" and "length (c_worklist c) \<le> m"
  shows "\<exists>before after.
           (\<forall>s. save_city g plrno m nations (i, c) s
              = s\<lparr>secfile := secfile s @ before
                    @ worklist_record (PF ''%s'' [PF ''player%d.c%d'' [PI plrno, PI (int i)]])
                        (c_worklist c) m
                    @ after\<rparr>)
           \<and> (\<forall>P. filter (wl_slot_of P) before = [])
           \<and> (\<forall>P. filter (wl_slot_of P) after = [])"
proof -
  have ok: "improvement_count g < MAX_NUM_ITEMS (control g) + 1"
    using assms(1) by simp
  show ?thesis
    apply (rule exI [of _ "record_fields (PF ''player%d.c%d'' [PI plrno, PI (int i)]) (c_fields_head c)
              @ [((''player%d.c%d.city_radius_sq'', [PI plrno, PI (int i)]), VInt (city_radius_sq c)),
                 ((''%s.improvements'', [PF ''player%d.c%d'' [PI plrno, PI (int i)]]),
                  VStr (map (\<lambda>k. if c_built c k then CHR ''1'' else CHR ''0'') [0..<improvement_count g]))]"])
    apply (rule exI [of _ "record_fields (PF ''player%d.c%d'' [PI plrno, PI (int i)]) (c_fields_tail c)
              @ (if citizen_nationality (info g)
                 then map (\<lambda>pplayer.
                        ((''%s.citizen%d'', [PF ''player%d.c%d'' [PI plrno, PI (int i)],
                                             PI (int (player_number pplayer))]),
                         VInt (citizens_nation_get c (player_number pplayer))))
                      (filter (\<lambda>pplayer. nations (player_number pplayer)) (players g))
                 else [])"])
    apply (intro conjI allI)
    subgoal for s
      using ok assms(2,3)
      by (simp add: save_city_def Let_def insert_all_eq worklist_save_eq)
    subgoal for P
      by (simp add: record_fields_no_slot) (simp add: wl_slot_of_def)
    subgoal for P
      by (simp add: record_fields_no_slot) (simp add: wl_slot_of_def filter_empty_conv)
    done
qed

lemma concat_skip:
  assumes "i \<notin> fst ` set xs"
  shows "concat (map (\<lambda>x. if fst x = i then f (snd x) else []) xs) = []"
  using assms by (induction xs) auto

lemma concat_pick:
  assumes "distinct (map fst xs)" and "(i, c) \<in> set xs"
  shows "concat (map (\<lambda>x. if fst x = i then f (snd x) else []) xs) = f c"
  using assms
proof (induction xs)
  case Nil
  then show ?case by simp
next
  case (Cons x xs)
  show ?case
  proof (cases "x = (i, c)")
    case True
    then have "i \<notin> fst ` set xs"
      using Cons.prems(1) by simp
    then have "concat (map (\<lambda>x. if fst x = i then f (snd x) else []) xs) = []"
      by (rule concat_skip)
    with True show ?thesis by simp
  next
    case False
    then have mem: "(i, c) \<in> set xs"
      using Cons.prems(2) by simp
    then have "i \<in> fst ` set xs"
      by (rule rev_image_eqI) simp
    then have "fst x \<noteq> i"
      using Cons.prems(1) by auto
    moreover have "concat (map (\<lambda>x. if fst x = i then f (snd x) else []) xs) = f c"
      using Cons.prems(1) mem by (intro Cons.IH) simp_all
    ultimately show ?thesis by simp
  qed
qed

lemma city_path_inj: "city_path plr i = city_path plr j \<longleftrightarrow> i = j"
  by (simp add: city_path_def)

lemma iterate_ret_append:
  assumes "\<And>x s. x \<in> set xs \<Longrightarrow> body x s = s\<lparr>secfile := secfile s @ es x\<rparr>"
    and "sg_success s"
  shows "iterate_ret body xs s = s\<lparr>secfile := secfile s @ concat (map es xs)\<rparr>"
  using assms
proof (induction xs arbitrary: s)
  case Nil
  then show ?case by simp
next
  case (Cons x xs)
  have b: "body x s = s\<lparr>secfile := secfile s @ es x\<rparr>"
    using Cons.prems(1) by simp
  have "iterate_ret body xs (body x s)
          = (body x s)\<lparr>secfile := secfile (body x s) @ concat (map es xs)\<rparr>"
    using Cons.prems b by (intro Cons.IH) simp_all
  then show ?case
    using Cons.prems(2) b by (simp add: Let_def)
qed


text \<open>
  Claim C6. For a player whose cities are saved (the flag is set, the improvements fit
  their buffer and no worklist is longer than \<open>MAX_LEN_WORKLIST\<close>, as the array of a
  \<open>struct worklist\<close> guarantees), let \<open>M\<close> be the greatest worklist length over the player's
  cities. Then the document holds, for every city, the worklist record of the specification
  with \<open>M\<close> slot pairs: the entries of the worklist in order, then empty strings in both
  slots up to \<open>M - 1\<close>. These are all the slots of the city: among the entries that the
  function adds to the document, those keyed \<open>wl_kind\<close>\<^emph>\<open>d\<close> or \<open>wl_value\<close>\<^emph>\<open>d\<close> under the path
  of the city are exactly these \<open>M\<close> pairs, in this order and nothing more.
\<close>

theorem worklist_table_rectangular:
  assumes "sg_success s"
    and "improvement_count g \<le> MAX_NUM_ITEMS (control g)"
    and "\<forall>c \<in> set (plr_cities plr). length (c_worklist c) \<le> MAX_LEN_WORKLIST (control g)"
  shows "wlist_max_length (plr_cities plr)
           = Max (insert 0 ((\<lambda>c. length (c_worklist c)) ` set (plr_cities plr)))
       \<and> (\<forall>i < length (plr_cities plr). \<exists>before after.
             secfile (sg_save_player_cities g plr s)
               = before
                 @ worklist_record (city_path plr i) (c_worklist (plr_cities plr ! i))
                     (wlist_max_length (plr_cities plr))
                 @ after)
       \<and> (\<exists>es. secfile (sg_save_player_cities g plr s) = secfile s @ es
             \<and> (\<forall>i < length (plr_cities plr).
                   filter (wl_slot_of (city_path plr i)) es
                     = worklist_slots (city_path plr i) (c_worklist (plr_cities plr ! i))
                         (wlist_max_length (plr_cities plr))
                   \<and> length (filter (wl_slot_of (city_path plr i)) es)
                       = 2 * wlist_max_length (plr_cities plr)))
       \<and> sg_success (sg_save_player_cities g plr s)"
proof -
  define cs where "cs = plr_cities plr"
  define m where "m = wlist_max_length cs"
  define xs where "xs = zip [0..<length cs] cs"
  define plrno where "plrno = int (player_number plr)"
  define nations where "nations = citizen_nations g cs"
  define ncities where
    "ncities = [((''player%d.ncities'', [PI plrno]), VInt (int (length cs)))]"
  define s1 where "s1 = insert_all s ncities"
  have m_le: "m \<le> MAX_LEN_WORKLIST (control g)"
    unfolding m_def cs_def using assms(3) by (rule wlist_max_length_le)
  have "\<forall>x \<in> set xs. \<exists>e.
          (\<exists>before after. e = before @ worklist_record (city_path plr (fst x)) (c_worklist (snd x)) m
                               @ after)
          \<and> (\<forall>P. filter (wl_slot_of P) e
                  = (if P = city_path plr (fst x)
                     then worklist_slots (city_path plr (fst x)) (c_worklist (snd x)) m else []))
          \<and> (\<forall>s. save_city g plrno m nations x s = s\<lparr>secfile := secfile s @ e\<rparr>)"
  proof
    fix x assume x: "x \<in> set xs"
    obtain i c where ic: "x = (i, c)" by (cases x)
    with x have "c \<in> set cs" unfolding xs_def by (auto dest: set_zip_rightD)
    then have "length (c_worklist c) \<le> m"
      unfolding m_def by (rule wlist_max_length_ge)
    from save_city_shape [OF assms(2) m_le this, of plrno nations i]
    obtain before after where
      run: "\<forall>s. save_city g plrno m nations (i, c) s
             = s\<lparr>secfile := secfile s @ before
                    @ worklist_record (PF ''%s'' [PF ''player%d.c%d'' [PI plrno, PI (int i)]])
                        (c_worklist c) m
                    @ after\<rparr>"
      and nb: "\<forall>P. filter (wl_slot_of P) before = []"
      and na: "\<forall>P. filter (wl_slot_of P) after = []"
      by blast
    define e where "e = before @ worklist_record (city_path plr i) (c_worklist c) m @ after"
    have p: "PF ''%s'' [PF ''player%d.c%d'' [PI plrno, PI (int i)]] = city_path plr i"
      by (simp add: city_path_def plrno_def)
    have a: "\<exists>before after. e = before @ worklist_record (city_path plr i) (c_worklist c) m @ after"
      unfolding e_def by blast
    have b: "\<forall>P. filter (wl_slot_of P) e
                  = (if P = city_path plr i
                     then worklist_slots (city_path plr i) (c_worklist c) m else [])"
      unfolding e_def using nb na by (simp add: worklist_record_slots)
    have c: "\<forall>s. save_city g plrno m nations (i, c) s = s\<lparr>secfile := secfile s @ e\<rparr>"
      unfolding e_def using run by (simp add: p)
    from a b c show "\<exists>e.
          (\<exists>before after. e = before @ worklist_record (city_path plr (fst x)) (c_worklist (snd x)) m
                               @ after)
          \<and> (\<forall>P. filter (wl_slot_of P) e
                  = (if P = city_path plr (fst x)
                     then worklist_slots (city_path plr (fst x)) (c_worklist (snd x)) m else []))
          \<and> (\<forall>s. save_city g plrno m nations x s = s\<lparr>secfile := secfile s @ e\<rparr>)"
      unfolding ic fst_conv snd_conv by - (rule exI [of _ e], (intro conjI; assumption))
  qed
  then have "\<exists>es. \<forall>x \<in> set xs.
       (\<exists>before after. es x = before
            @ worklist_record (city_path plr (fst x)) (c_worklist (snd x)) m @ after)
       \<and> (\<forall>P. filter (wl_slot_of P) (es x)
               = (if P = city_path plr (fst x)
                  then worklist_slots (city_path plr (fst x)) (c_worklist (snd x)) m else []))
       \<and> (\<forall>s. save_city g plrno m nations x s = s\<lparr>secfile := secfile s @ es x\<rparr>)"
    by (rule bchoice)
  then obtain es where es:
    "\<forall>x \<in> set xs.
       (\<exists>before after. es x = before
            @ worklist_record (city_path plr (fst x)) (c_worklist (snd x)) m @ after)
       \<and> (\<forall>P. filter (wl_slot_of P) (es x)
               = (if P = city_path plr (fst x)
                  then worklist_slots (city_path plr (fst x)) (c_worklist (snd x)) m else []))
       \<and> (\<forall>s. save_city g plrno m nations x s = s\<lparr>secfile := secfile s @ es x\<rparr>)"
    ..
  have ok1: "sg_success s1"
    using assms(1) by (simp add: s1_def insert_all_eq)
  have run: "iterate_ret (save_city g plrno m nations) xs s1
               = s1\<lparr>secfile := secfile s1 @ concat (map es xs)\<rparr>"
    using es ok1 by (intro iterate_ret_append) simp_all
  have res: "sg_save_player_cities g plr s = s1\<lparr>secfile := secfile s1 @ concat (map es xs)\<rparr>"
    using assms(1) run
    by (simp add: sg_save_player_cities_def Let_def cs_def m_def xs_def plrno_def nations_def
          s1_def ncities_def)
  have rows: "\<exists>before after.
      secfile (sg_save_player_cities g plr s)
        = before @ worklist_record (city_path plr i) (c_worklist (cs ! i)) m @ after"
    if i: "i < length cs" for i
  proof -
    have len: "i < length xs" and nth: "xs ! i = (i, cs ! i)"
      using i by (simp_all add: xs_def)
    have mem: "xs ! i \<in> set xs"
      using len by simp
    from es mem nth obtain before after where
      e: "es (xs ! i) = before @ worklist_record (city_path plr i) (c_worklist (cs ! i)) m @ after"
      by fastforce
    have "xs = take i xs @ xs ! i # drop (Suc i) xs"
      using len by (rule id_take_nth_drop)
    then have "concat (map es xs)
                 = concat (map es (take i xs)) @ es (xs ! i) @ concat (map es (drop (Suc i) xs))"
      by (metis concat.simps(2) concat_append list.simps(9) map_append)
    with e have "secfile (sg_save_player_cities g plr s)
        = (secfile s1 @ concat (map es (take i xs)) @ before)
          @ worklist_record (city_path plr i) (c_worklist (cs ! i)) m
          @ (after @ concat (map es (drop (Suc i) xs)))"
      by (simp add: res)
    then show ?thesis by blast
  qed
  define added where "added = ncities @ concat (map es xs)"
  have whole: "secfile (sg_save_player_cities g plr s) = secfile s @ added"
    by (simp add: res s1_def insert_all_eq added_def)
  have slots: "filter (wl_slot_of (city_path plr i)) added
                 = worklist_slots (city_path plr i) (c_worklist (cs ! i)) m"
    if i: "i < length cs" for i
  proof -
    have "i < length xs" and "xs ! i = (i, cs ! i)"
      using i by (simp_all add: xs_def)
    then have mem: "(i, cs ! i) \<in> set xs"
      by (metis nth_mem)
    have dist: "distinct (map fst xs)"
      by (simp add: xs_def)
    have "map (\<lambda>x. filter (wl_slot_of (city_path plr i)) (es x)) xs
            = map (\<lambda>x. if fst x = i
                        then worklist_slots (city_path plr i) (c_worklist (snd x)) m else []) xs"
    proof (rule map_cong [OF refl])
      fix x assume "x \<in> set xs"
      with es have "filter (wl_slot_of (city_path plr i)) (es x)
               = (if city_path plr i = city_path plr (fst x)
                  then worklist_slots (city_path plr (fst x)) (c_worklist (snd x)) m else [])"
        by blast
      then show "filter (wl_slot_of (city_path plr i)) (es x)
               = (if fst x = i
                  then worklist_slots (city_path plr i) (c_worklist (snd x)) m else [])"
        by (auto simp add: city_path_inj)
    qed
    then have eq: "concat (map (\<lambda>x. filter (wl_slot_of (city_path plr i)) (es x)) xs)
            = concat (map (\<lambda>x. if fst x = i
                        then worklist_slots (city_path plr i) (c_worklist (snd x)) m else []) xs)"
      by (rule arg_cong)
    have "filter (wl_slot_of (city_path plr i)) (concat (map es xs))
            = concat (map (\<lambda>x. filter (wl_slot_of (city_path plr i)) (es x)) xs)"
      by (simp add: filter_concat comp_def)
    also note eq
    also have "concat (map (\<lambda>x. if fst x = i
                        then worklist_slots (city_path plr i) (c_worklist (snd x)) m else []) xs)
                 = worklist_slots (city_path plr i) (c_worklist (cs ! i)) m"
      using dist mem
      by (rule concat_pick [where f = "\<lambda>c. worklist_slots (city_path plr i) (c_worklist c) m"])
    finally show ?thesis
      by (simp add: added_def ncities_def wl_slot_of_def)
  qed
  have exact: "\<exists>es. secfile (sg_save_player_cities g plr s) = secfile s @ es
             \<and> (\<forall>i < length cs.
                   filter (wl_slot_of (city_path plr i)) es
                     = worklist_slots (city_path plr i) (c_worklist (cs ! i)) m
                   \<and> length (filter (wl_slot_of (city_path plr i)) es) = 2 * m)"
    using whole slots by (intro exI [of _ added]) (simp add: worklist_slots_length)
  have "sg_success (sg_save_player_cities g plr s)"
    using ok1 by (simp add: res)
  with rows exact wlist_max_length_Max [of cs] show ?thesis
    unfolding cs_def m_def by blast
qed

theorem worklist_table_rectangular_witness:
  "sg_success (savedata_new [] ''quit'' False demo_units)
   \<and> improvement_count demo_game \<le> MAX_NUM_ITEMS (control demo_game)
   \<and> MAX_LEN_WORKLIST (control demo_game) = 64
   \<and> map (\<lambda>c. length (c_worklist c)) (plr_cities demo_player) = [0, 3]
   \<and> wlist_max_length (plr_cities demo_player) = 3
   \<and> (\<exists>before after.
         secfile (sg_save_player_cities demo_game demo_player
                    (savedata_new [] ''quit'' False demo_units))
           = before @ worklist_record (city_path demo_player 0) [] 3 @ after)
   \<and> (\<exists>before after.
         secfile (sg_save_player_cities demo_game demo_player
                    (savedata_new [] ''quit'' False demo_units))
           = before @ worklist_record (city_path demo_player 1) (c_worklist demo_city_b) 3 @ after)
   \<and> map snd (worklist_record (city_path demo_player 0) [] 3)
       = [VInt 0, VStr [], VStr [], VStr [], VStr [], VStr [], VStr []]
   \<and> map snd (worklist_record (city_path demo_player 1) (c_worklist demo_city_b) 3)
       = [VInt 3, VStr ''Improvement'', VStr ''Barracks'', VStr ''Unit'', VStr ''Settlers'',
          VStr ''Improvement'', VStr ''Library'']
   \<and> filter (wl_slot_of (city_path demo_player 0))
       (secfile (sg_save_player_cities demo_game demo_player
                   (savedata_new [] ''quit'' False demo_units)))
       = worklist_slots (city_path demo_player 0) [] 3
   \<and> filter (wl_slot_of (city_path demo_player 1))
       (secfile (sg_save_player_cities demo_game demo_player
                   (savedata_new [] ''quit'' False demo_units)))
       = worklist_slots (city_path demo_player 1) (c_worklist demo_city_b) 3
   \<and> length (filter (wl_slot_of (city_path demo_player 0))
               (secfile (sg_save_player_cities demo_game demo_player
                           (savedata_new [] ''quit'' False demo_units)))) = 6
   \<and> length (filter (wl_slot_of (city_path demo_player 1))
               (secfile (sg_save_player_cities demo_game demo_player
                           (savedata_new [] ''quit'' False demo_units)))) = 6"
proof -
  have h1: "sg_success (savedata_new [] ''quit'' False demo_units)"
    by (simp add: savedata_new_def)
  have h2: "improvement_count demo_game \<le> MAX_NUM_ITEMS (control demo_game)"
    by (simp add: improvement_count_def demo_game_def demo_control_def)
  have h3: "\<forall>c \<in> set (plr_cities demo_player).
              length (c_worklist c) \<le> MAX_LEN_WORKLIST (control demo_game)"
    by (simp add: demo_player_def demo_city_a_def demo_city_b_def demo_game_def demo_control_def)
  have cs: "plr_cities demo_player = [demo_city_a, demo_city_b]"
    by (simp add: demo_player_def)
  have m: "wlist_max_length (plr_cities demo_player) = 3"
    by (simp add: cs wlist_max_length_def demo_city_a_def demo_city_b_def)
  have a: "c_worklist demo_city_a = []"
    by (simp add: demo_city_a_def)
  have m2: "wlist_max_length [demo_city_a, demo_city_b] = 3"
    using m unfolding cs .
  have len: "length [demo_city_a, demo_city_b] = 2"
    by simp
  have e: "secfile (savedata_new [] ''quit'' False demo_units) = []"
    by (simp add: savedata_new_def)
  note whole = worklist_table_rectangular [OF h1 h2 h3]
  note t = whole [THEN conjunct2, THEN conjunct1, unfolded cs m2 len]
  note u = whole [THEN conjunct2, THEN conjunct2, THEN conjunct1, unfolded cs m2 len e]
  have r: "\<exists>before after.
      secfile (sg_save_player_cities demo_game demo_player
                 (savedata_new [] ''quit'' False demo_units))
        = before @ worklist_record (city_path demo_player i)
                     (c_worklist ([demo_city_a, demo_city_b] ! i)) 3 @ after"
    if "i < 2" for i
    using t that by blast
  have r0: "\<exists>before after.
         secfile (sg_save_player_cities demo_game demo_player
                    (savedata_new [] ''quit'' False demo_units))
           = before @ worklist_record (city_path demo_player 0) [] 3 @ after"
    using r [of 0] a by simp
  have r1: "\<exists>before after.
         secfile (sg_save_player_cities demo_game demo_player
                    (savedata_new [] ''quit'' False demo_units))
           = before @ worklist_record (city_path demo_player 1) (c_worklist demo_city_b) 3 @ after"
    using r [of 1] by simp
  have x: "filter (wl_slot_of (city_path demo_player i))
             (secfile (sg_save_player_cities demo_game demo_player
                         (savedata_new [] ''quit'' False demo_units)))
             = worklist_slots (city_path demo_player i)
                 (c_worklist ([demo_city_a, demo_city_b] ! i)) 3
           \<and> length (filter (wl_slot_of (city_path demo_player i))
               (secfile (sg_save_player_cities demo_game demo_player
                           (savedata_new [] ''quit'' False demo_units)))) = 6"
    if "i < 2" for i
    using u that by auto
  have x0: "filter (wl_slot_of (city_path demo_player 0))
       (secfile (sg_save_player_cities demo_game demo_player
                   (savedata_new [] ''quit'' False demo_units)))
       = worklist_slots (city_path demo_player 0) [] 3"
    using x [of 0] a by simp
  have x1: "filter (wl_slot_of (city_path demo_player 1))
       (secfile (sg_save_player_cities demo_game demo_player
                   (savedata_new [] ''quit'' False demo_units)))
       = worklist_slots (city_path demo_player 1) (c_worklist demo_city_b) 3"
    using x [of 1] by simp
  have y0: "length (filter (wl_slot_of (city_path demo_player 0))
               (secfile (sg_save_player_cities demo_game demo_player
                           (savedata_new [] ''quit'' False demo_units)))) = 6"
    by (rule conjunct2 [OF x [of 0]]) simp
  have y1: "length (filter (wl_slot_of (city_path demo_player 1))
               (secfile (sg_save_player_cities demo_game demo_player
                           (savedata_new [] ''quit'' False demo_units)))) = 6"
    by (rule conjunct2 [OF x [of 1]]) simp
  have v0: "map snd (worklist_record (city_path demo_player 0) [] 3)
       = [VInt 0, VStr [], VStr [], VStr [], VStr [], VStr [], VStr []]"
    by code_simp
  have v1: "map snd (worklist_record (city_path demo_player 1) (c_worklist demo_city_b) 3)
       = [VInt 3, VStr ''Improvement'', VStr ''Barracks'', VStr ''Unit'', VStr ''Settlers'',
          VStr ''Improvement'', VStr ''Library'']"
    by code_simp
  have l: "map (\<lambda>c. length (c_worklist c)) (plr_cities demo_player) = [0, 3]"
    by (simp add: cs demo_city_a_def demo_city_b_def)
  have mx: "MAX_LEN_WORKLIST (control demo_game) = 64"
    by (simp add: demo_game_def demo_control_def)
  from h1 h2 mx l m r0 r1 v0 v1 x0 x1 y0 y1 show ?thesis
    by - (intro conjI; assumption)
qed

section \<open>Properties of the stages\<close>

subsection \<open>What later functions keep\<close>

lemma grows_refl: "grows s s"
  by (simp add: grows_def)

lemma grows_trans: "grows a b \<Longrightarrow> grows b c \<Longrightarrow> grows a c"
  by (simp add: grows_def)

lemma grows_insert_all: "grows s (insert_all s es)"
  by (simp add: grows_def insert_all_eq)

lemma grows_foldl:
  assumes "\<And>x s. grows s (f s x)"
  shows "grows s (foldl f s xs)"
proof (induction xs arbitrary: s)
  case Nil
  show ?case by (simp add: grows_refl)
next
  case (Cons x xs)
  show ?case
    using grows_trans [OF assms [of s x] Cons.IH [of "f s x"]] by simp
qed

lemma grows_iterate_ret:
  assumes "\<And>x s. grows s (body x s)"
  shows "grows s (iterate_ret body xs s)"
proof (induction xs arbitrary: s)
  case Nil
  show ?case by (simp add: grows_refl)
next
  case (Cons x xs)
  show ?case
    using grows_trans [OF assms [of s x] Cons.IH [of "body x s"]] assms [of s x]
    by (simp add: Let_def)
qed

lemma grows_save_map_rows: "grows s (save_map_rows get_xy secpath w ys s)"
proof (induction ys arbitrary: s)
  case Nil
  show ?case by (simp add: grows_refl)
next
  case (Cons y ys)
  show ?case
  proof (cases "save_map_line (\<lambda>x. get_xy x y) [0..<w] []")
    case None
    then show ?thesis by (simp add: grows_def)
  next
    case (Some line)
    have "grows s (s\<lparr>secfile := secfile_insert (secfile s) (VStr line) (secpath y)\<rparr>)"
      by (simp add: grows_def secfile_insert_def)
    from grows_trans [OF this Cons.IH] Some show ?thesis by simp
  qed
qed

lemma grows_SAVE_MAP_CHAR: "grows s (SAVE_MAP_CHAR m get_xy secpath s)"
  by (simp add: SAVE_MAP_CHAR_def grows_save_map_rows)

lemma grows_halfbyte_bases:
  assumes "\<And>j s. grows s (body j s)"
  shows "grows s (halfbyte_iterate_bases n body j s)"
  using assms
proof (induction n body j s rule: halfbyte_iterate_bases.induct)
  case (1 n body j s)
  note step = "1.prems" [of s j]
  show ?case
  proof (cases "4 * j < n \<and> sg_success (body j s)")
    case True
    then have "grows (body j s) (halfbyte_iterate_bases n body (j + 1) (body j s))"
      using "1.IH" [of "body j s"] "1.prems" by simp
    from grows_trans [OF step this] True show ?thesis
      by (subst halfbyte_iterate_bases.simps) (simp add: Let_def)
  next
    case False
    with step show ?thesis
      by (subst halfbyte_iterate_bases.simps) (auto simp add: Let_def grows_refl)
  qed
qed

lemma grows_halfbyte_roads:
  assumes "\<And>j s. grows s (body j s)"
  shows "grows s (halfbyte_iterate_roads n body j s)"
  using assms
proof (induction n body j s rule: halfbyte_iterate_roads.induct)
  case (1 n body j s)
  note step = "1.prems" [of s j]
  show ?case
  proof (cases "4 * j < n \<and> sg_success (body j s)")
    case True
    then have "grows (body j s) (halfbyte_iterate_roads n body (j + 1) (body j s))"
      using "1.IH" [of "body j s"] "1.prems" by simp
    from grows_trans [OF step this] True show ?thesis
      by (subst halfbyte_iterate_roads.simps) (simp add: Let_def)
  next
    case False
    with step show ?thesis
      by (subst halfbyte_iterate_roads.simps) (auto simp add: Let_def grows_refl)
  qed
qed

lemma grows_halfbyte_special:
  assumes "\<And>j s. grows s (body j s)"
  shows "grows s (halfbyte_iterate_special n body j s)"
  using assms
proof (induction n body j s rule: halfbyte_iterate_special.induct)
  case (1 n body j s)
  note step = "1.prems" [of s j]
  show ?case
  proof (cases "4 * j < n \<and> sg_success (body j s)")
    case True
    then have "grows (body j s) (halfbyte_iterate_special n body (j + 1) (body j s))"
      using "1.IH" [of "body j s"] "1.prems" by simp
    from grows_trans [OF step this] True show ?thesis
      by (subst halfbyte_iterate_special.simps) (simp add: Let_def)
  next
    case False
    with step show ?thesis
      by (subst halfbyte_iterate_special.simps) (auto simp add: Let_def grows_refl)
  qed
qed

lemma secfile_replace_str_keeps:
  assumes "e \<in> set f" and "fst e \<noteq> k"
  shows "e \<in> set (secfile_replace_str f v k)"
proof (cases "k \<in> fst ` set f")
  case True
  have "e = (\<lambda>(q, w). if q = k then (q, VStr v) else (q, w)) e"
    using assms(2) by (cases e) simp
  with assms(1) have "e \<in> (\<lambda>(q, w). if q = k then (q, VStr v) else (q, w)) ` set f"
    by (rule rev_image_eqI)
  with True show ?thesis
    by (simp add: secfile_replace_str_def)
next
  case False
  with assms(1) show ?thesis
    by (simp add: secfile_replace_str_def)
qed

lemma grows_options: "grows s (sg_save_savefile_options option s)"
proof (cases option)
  case None
  then show ?thesis
    by (simp add: sg_save_savefile_options_def grows_refl)
next
  case (Some opt)
  show ?thesis
  proof (cases "sg_success s")
    case False
    then show ?thesis
      by (simp add: sg_save_savefile_options_def grows_refl)
  next
    case True
    have res: "sg_save_savefile_options option s
                 = s\<lparr>secfile_options := take 511 (secfile_options s @ opt),
                      secfile := secfile_replace_str (secfile s)
                                   (take 511 (secfile_options s @ opt))
                                   (''savefile.options'', [])\<rparr>"
      using True Some by (simp add: sg_save_savefile_options_def Let_def)
    show ?thesis
      unfolding res grows_def
    proof (intro conjI ballI impI)
      fix e assume "e \<in> set (secfile s)" and "fst e \<noteq> (''savefile.options'', [])"
      then have "e \<in> set (secfile_replace_str (secfile s)
                              (take 511 (secfile_options s @ opt)) (''savefile.options'', []))"
        by (rule secfile_replace_str_keeps)
      then show "e \<in> set (secfile (s\<lparr>secfile_options := take 511 (secfile_options s @ opt),
                      secfile := secfile_replace_str (secfile s)
                                   (take 511 (secfile_options s @ opt))
                                   (''savefile.options'', [])\<rparr>))"
        by simp
    qed simp_all
  qed
qed

lemma grows_map_startpos: "grows s (sg_save_map_startpos g s)"
  by (simp add: sg_save_map_startpos_def grows_refl)

lemma grows_map_tiles_bases: "grows s (sg_save_map_tiles_bases g s)"
  by (simp add: sg_save_map_tiles_bases_def grows_refl grows_halfbyte_bases grows_SAVE_MAP_CHAR)

lemma grows_map_tiles_roads: "grows s (sg_save_map_tiles_roads g s)"
  by (simp add: sg_save_map_tiles_roads_def grows_refl grows_halfbyte_roads grows_SAVE_MAP_CHAR)

lemma grows_map_tiles_specials: "grows s (sg_save_map_tiles_specials g r s)"
  by (simp add: sg_save_map_tiles_specials_def grows_refl grows_halfbyte_special
        grows_SAVE_MAP_CHAR)

lemma grows_map_tiles_resources: "grows s (sg_save_map_tiles_resources g s)"
  by (simp add: sg_save_map_tiles_resources_def grows_refl grows_SAVE_MAP_CHAR)

lemma grows_map_owner: "grows s (sg_save_map_owner g s)"
proof -
  have "grows s
     (foldl (\<lambda>s y. insert_all s
               [((''map.source%04d'', [PI (int y)]), VStr (map_source_line (gmap g) y))])
        (foldl (\<lambda>s y. insert_all s
                  [((''map.owner%04d'', [PI (int y)]),
                    VStr (map_owner_line (gmap g) (save_players s) y))])
           s [0..<ysize (gmap g)])
        [0..<ysize (gmap g)])"
    by (rule grows_trans [OF grows_foldl grows_foldl]; rule grows_insert_all)
  then show ?thesis
    by (simp add: sg_save_map_owner_def Let_def grows_refl)
qed

lemma grows_map_worked: "grows s (sg_save_map_worked g s)"
proof -
  have "grows s
     (foldl (\<lambda>s y. insert_all s
               [((''map.worked%04d'', [PI (int y)]), VStr (map_worked_line (gmap g) y))])
        s [0..<ysize (gmap g)])"
    by (rule grows_foldl) (rule grows_insert_all)
  then show ?thesis
    by (simp add: sg_save_map_worked_def grows_refl)
qed

lemma grows_map_known: "grows s (sg_save_map_known g s)"
proof -
  have b: "grows s ((\<lambda>(l, j) s.
                 if known_halfbyte_used g l j
                 then SAVE_MAP_CHAR (gmap g)
                        (\<lambda>x y. bin2ascii_hex (known_word g l (native_pos_to_tile (gmap g) x y)) j)
                        (\<lambda>y. (''map.k%02d_%04d'', [PI (int (l * 8 + j)), PI (int y)])) s
                 else s) x s)" for x s
    by (cases x) (simp add: grows_refl grows_SAVE_MAP_CHAR)
  have "grows s
     (iterate_ret
        (\<lambda>(l, j) s.
           if known_halfbyte_used g l j
           then SAVE_MAP_CHAR (gmap g)
                  (\<lambda>x y. bin2ascii_hex (known_word g l (native_pos_to_tile (gmap g) x y)) j)
                  (\<lambda>y. (''map.k%02d_%04d'', [PI (int (l * 8 + j)), PI (int y)])) s
           else s)
        (concat (map (\<lambda>l. map (\<lambda>j. (l, j)) [0..<8])
                   [0..<player_slot_max_used_number g div 32 + 1]))
        (insert_all s [((''game.save_known'', []), VBool True)]))"
    by (rule grows_trans [OF grows_insert_all grows_iterate_ret]) (rule b)
  then show ?thesis
    by (simp add: sg_save_map_known_def Let_def grows_refl grows_insert_all)
qed


lemma grows_player_main: "grows s (sg_save_player_main g plr s)"
  by (simp add: sg_save_player_main_def grows_refl grows_insert_all)

lemma grows_player_attributes: "grows s (sg_save_player_attributes g plr s)"
  by (simp add: sg_save_player_attributes_def grows_refl grows_insert_all)

lemma worklist_save_keeps:
  assumes "e \<in> set f"
  shows "e \<in> set (worklist_save maxwl f wl m path_str)"
  using assms unfolding worklist_save_def Let_def foldl_insert_pairs
  by (simp add: secfile_insert_def)

lemma grows_save_city: "grows s (save_city g plrno m nations ic s)"
  by (simp add: save_city_def Let_def insert_all_eq grows_def worklist_save_keeps)

lemma grows_player_cities: "grows s (sg_save_player_cities g plr s)"
proof -
  have "grows s
     (iterate_ret
        (save_city g (int (player_number plr)) (wlist_max_length (plr_cities plr))
           (citizen_nations g (plr_cities plr)))
        (zip [0..<length (plr_cities plr)] (plr_cities plr))
        (insert_all s [((''player%d.ncities'', [PI (int (player_number plr))]),
                        VInt (int (length (plr_cities plr))))]))"
    by (rule grows_trans [OF grows_insert_all grows_iterate_ret]) (rule grows_save_city)
  then show ?thesis
    by (simp add: sg_save_player_cities_def Let_def grows_refl)
qed

lemma grows_player_units: "grows s (sg_save_player_units g plr s)"
proof -
  have step: "grows s ((\<lambda>s (i, punit).
               (let buf = PF ''player%d.u%d'' [PI (int (player_number plr)), PI (int i)];
                    u = units s punit
                in insert_all s
                     (record_fields buf (u_fields_head u)
                      @ [((''%s.ord_map'', [buf]), VInt (ord_map u)),
                         ((''%s.ord_city'', [buf]), VInt (ord_city u))]
                      @ record_fields buf (u_fields_tail u)))) s x)" for s x
    by (cases x) (simp add: Let_def grows_insert_all)
  have "grows s
     (foldl (\<lambda>s (i, punit).
               (let buf = PF ''player%d.u%d'' [PI (int (player_number plr)), PI (int i)];
                    u = units s punit
                in insert_all s
                     (record_fields buf (u_fields_head u)
                      @ [((''%s.ord_map'', [buf]), VInt (ord_map u)),
                         ((''%s.ord_city'', [buf]), VInt (ord_city u))]
                      @ record_fields buf (u_fields_tail u))))
        (insert_all s [((''player%d.nunits'', [PI (int (player_number plr))]),
                        VInt (int (length (plr_units plr))))])
        (zip [0..<length (plr_units plr)] (plr_units plr)))"
    by (rule grows_trans [OF grows_insert_all grows_foldl]) (rule step)
  then show ?thesis
    by (simp add: sg_save_player_units_def Let_def grows_refl)
qed

lemma grows_units_update: "grows s (s\<lparr>units := st\<rparr>)"
  by (simp add: grows_def)

lemma grows_players: "grows s (sg_save_players g s)"
proof -
  have step: "grows s (sg_save_player_attributes g p
                 (sg_save_player_units g p
                    (sg_save_player_cities g p (sg_save_player_main g p s))))" for s p
    by (rule grows_trans [OF grows_player_main
          grows_trans [OF grows_player_cities
            grows_trans [OF grows_player_units grows_player_attributes]]])
  have "grows s
     (foldl (\<lambda>s pplayer.
               sg_save_player_attributes g pplayer
                 (sg_save_player_units g pplayer
                    (sg_save_player_cities g pplayer
                       (sg_save_player_main g pplayer s))))
        ((insert_all s es)\<lparr>units := st\<rparr>) (players g))" for es st
    by (rule grows_trans [OF grows_insert_all grows_trans [OF grows_units_update grows_foldl]])
       (rule step)
  then show ?thesis
    by (simp add: sg_save_players_def Let_def grows_refl insert_all_eq)
qed

lemma grows_mapimg: "grows s (sg_save_mapimg g s)"
  by (simp add: sg_save_mapimg_def grows_refl grows_insert_all)

lemma grows_sanitycheck: "grows s (sg_save_sanitycheck g s)"
  by (simp add: sg_save_sanitycheck_def grows_refl)

lemma terrain2char_printable: "fc_isprint (of_char (terrain2char t) AND 0x7f)"
  by (cases t) (simp_all add: fc_isprint_def)

lemma save_map_line_printable:
  assumes "\<And>x. fc_isprint (of_char (get_x x) AND 0x7f)"
  shows "save_map_line get_x xs line = Some (line @ map get_x xs)"
  using assms by (induction xs arbitrary: line) (simp_all add: Let_def)

lemma save_map_rows_printable:
  assumes "\<And>x y. fc_isprint (of_char (get_xy x y) AND 0x7f)"
  shows "save_map_rows get_xy secpath w ys s
           = s\<lparr>secfile := secfile s @ map (\<lambda>y. (secpath y, VStr (map (\<lambda>x. get_xy x y) [0..<w]))) ys\<rparr>"
proof (induction ys arbitrary: s)
  case Nil
  show ?case by simp
next
  case (Cons y ys)
  have "save_map_line (\<lambda>x. get_xy x y) [0..<w] [] = Some (map (\<lambda>x. get_xy x y) [0..<w])"
    using save_map_line_printable [of "\<lambda>x. get_xy x y" "[0..<w]" "[]"] assms by simp
  then show ?case
    by (simp add: Cons.IH secfile_insert_def)
qed

lemma grows_tile_sprites: "grows s (save_tile_sprites g s pos)"
  by (auto simp add: save_tile_sprites_def Let_def grows_refl grows_insert_all
        intro: grows_trans [OF grows_insert_all grows_insert_all] split: option.splits)

lemma SAVE_MAP_CHAR_terrain:
  "SAVE_MAP_CHAR (gmap g) (\<lambda>x y. terrain2char (t_terrain (native_pos_to_tile (gmap g) x y)))
     (\<lambda>y. (''map.t%04d'', [PI (int y)])) s
   = s\<lparr>secfile := secfile s @ map (terrain_line (gmap g)) [0..<ysize (gmap g)]\<rparr>"
  unfolding SAVE_MAP_CHAR_def terrain_line_def
  by (rule save_map_rows_printable) (rule terrain2char_printable)

lemma terrain_lines_written:
  assumes "sg_success s" and "y < ysize (gmap g)"
  shows "terrain_line (gmap g) y \<in> set (secfile (sg_save_map_tiles g s))"
proof -
  define s1 where "s1 = s\<lparr>secfile := secfile s @ map (terrain_line (gmap g)) [0..<ysize (gmap g)]\<rparr>"
  have in1: "terrain_line (gmap g) y \<in> set (secfile s1)"
    using assms(2) by (simp add: s1_def)
  have key: "fst (terrain_line (gmap g) y) \<noteq> (''savefile.options'', [])"
    by (simp add: terrain_line_def)
  have "grows s1 (foldl (save_tile_sprites g) s1 (whole_map_positions (gmap g)))"
    by (rule grows_foldl) (rule grows_tile_sprites)
  then have "grows s1 (sg_save_map_tiles g s)"
    using assms(1)
    by (simp add: sg_save_map_tiles_def Let_def SAVE_MAP_CHAR_terrain s1_def)
  with in1 key show ?thesis
    by (simp add: grows_def)
qed

lemma grows_map_tiles: "grows s (sg_save_map_tiles g s)"
proof -
  have "grows s (foldl (save_tile_sprites g)
                   (s\<lparr>secfile := secfile s @ map (terrain_line (gmap g)) [0..<ysize (gmap g)]\<rparr>)
                   (whole_map_positions (gmap g)))"
    by (rule grows_trans [OF _ grows_foldl [OF grows_tile_sprites]]) (simp add: grows_def)
  then show ?thesis
    by (simp add: sg_save_map_tiles_def Let_def SAVE_MAP_CHAR_terrain grows_refl)
qed

lemma grows_map_rest:
  "grows s
     (sg_save_map_known g (sg_save_map_worked g (sg_save_map_owner g
        (sg_save_map_tiles_resources g (sg_save_map_tiles_specials g False
           (sg_save_savefile_options (Some '' specials'')
              (sg_save_map_tiles_roads g (sg_save_map_tiles_bases g
                 (sg_save_map_startpos g s)))))))))"
  by (rule grows_trans [OF grows_map_startpos
        grows_trans [OF grows_map_tiles_bases
          grows_trans [OF grows_map_tiles_roads
            grows_trans [OF grows_options
              grows_trans [OF grows_map_tiles_specials
                grows_trans [OF grows_map_tiles_resources
                  grows_trans [OF grows_map_owner
                    grows_trans [OF grows_map_worked grows_map_known]]]]]]]])

lemma grows_map: "grows s (sg_save_map g s)"
proof -
  have "grows s
     (sg_save_map_known g (sg_save_map_worked g (sg_save_map_owner g
        (sg_save_map_tiles_resources g (sg_save_map_tiles_specials g False
           (sg_save_savefile_options (Some '' specials'')
              (sg_save_map_tiles_roads g (sg_save_map_tiles_bases g
                 (sg_save_map_startpos g (sg_save_map_tiles g
                    (insert_all s [((''map.have_huts'', []), VBool True)])))))))))))"
    by (rule grows_trans [OF grows_insert_all grows_trans [OF grows_map_tiles grows_map_rest]])
  then show ?thesis
    by (simp add: sg_save_map_def Let_def grows_refl)
qed

lemma terrain_lines_in_map:
  assumes "sg_success s" and "\<not> map_is_empty (gmap g)" and "y < ysize (gmap g)"
  shows "terrain_line (gmap g) y \<in> set (secfile (sg_save_map g s))"
proof -
  define s1 where "s1 = insert_all s [((''map.have_huts'', []), VBool True)]"
  have ok: "sg_success s1"
    using assms(1) by (simp add: s1_def insert_all_eq)
  have in1: "terrain_line (gmap g) y \<in> set (secfile (sg_save_map_tiles g s1))"
    using ok assms(3) by (rule terrain_lines_written)
  have key: "fst (terrain_line (gmap g) y) \<noteq> (''savefile.options'', [])"
    by (simp add: terrain_line_def)
  have "grows (sg_save_map_tiles g s1)
     (sg_save_map_known g (sg_save_map_worked g (sg_save_map_owner g
        (sg_save_map_tiles_resources g (sg_save_map_tiles_specials g False
           (sg_save_savefile_options (Some '' specials'')
              (sg_save_map_tiles_roads g (sg_save_map_tiles_bases g
                 (sg_save_map_startpos g (sg_save_map_tiles g s1))))))))))"
    by (rule grows_map_rest)
  then have "grows (sg_save_map_tiles g s1) (sg_save_map g s)"
    using assms(1,2) by (simp add: sg_save_map_def Let_def s1_def)
  with in1 key show ?thesis
    by (simp add: grows_def)
qed


lemma sg_save_scenario_flags:
  "sg_success (sg_save_scenario g s) = sg_success s
   \<and> scenario (sg_save_scenario g s) = scenario s
   \<and> save_players (sg_save_scenario g s) = save_players s
   \<and> invoked (sg_save_scenario g s) = invoked s"
  by (simp add: sg_save_scenario_def insert_all_eq)

lemma sg_save_savefile_options_flags:
  "sg_success (sg_save_savefile_options option s) = sg_success s
   \<and> scenario (sg_save_savefile_options option s) = scenario s
   \<and> save_players (sg_save_savefile_options option s) = save_players s
   \<and> invoked (sg_save_savefile_options option s) = invoked s"
  by (cases option) (simp_all add: sg_save_savefile_options_def Let_def)

lemma sg_save_savefile_flags:
  "sg_success (sg_save_savefile g s) = sg_success s
   \<and> scenario (sg_save_savefile g s) = scenario s
   \<and> save_players (sg_save_savefile g s) = save_players s
   \<and> invoked (sg_save_savefile g s) = invoked s"
  by (simp add: sg_save_savefile_def Let_def insert_all_eq sg_save_savefile_options_flags)

lemma sg_save_game_flags:
  "sg_success (sg_save_game g s) = sg_success s
   \<and> scenario (sg_save_game g s) = scenario s
   \<and> invoked (sg_save_game g s) = invoked s
   \<and> (sg_success s \<longrightarrow>
        save_players (sg_save_game g s)
          = (game_was_started g \<and> (scenario s \<longrightarrow> scenario_players (g_scenario g))))"
  by (simp add: sg_save_game_def Let_def insert_all_eq)

lemma sg_save_random_flags:
  "sg_success (sg_save_random g s) = sg_success s
   \<and> scenario (sg_save_random g s) = scenario s
   \<and> save_players (sg_save_random g s) = save_players s
   \<and> invoked (sg_save_random g s) = invoked s"
  by (simp add: sg_save_random_def insert_all_eq)

lemma sg_save_script_flags:
  "sg_success (sg_save_script g s) = sg_success s
   \<and> scenario (sg_save_script g s) = scenario s
   \<and> save_players (sg_save_script g s) = save_players s
   \<and> invoked (sg_save_script g s) = invoked s"
  by (simp add: sg_save_script_def insert_all_eq)

lemma sg_save_settings_flags:
  "sg_success (sg_save_settings g s) = sg_success s
   \<and> scenario (sg_save_settings g s) = scenario s
   \<and> save_players (sg_save_settings g s) = save_players s
   \<and> invoked (sg_save_settings g s) = invoked s"
  by (simp add: sg_save_settings_def insert_all_eq)

subsection \<open>The calls of the top-level routine\<close>

lemma run_stages_append:
  "run_stages (xs @ ys) s = run_stages ys (run_stages xs s)"
  by (simp add: run_stages_def)

lemma savegame2_save_real_stages:
  "savegame2_save_real g f reason scen st
     = run_stages (save_stages g) (savedata_new f reason scen st)"
  by (simp add: savegame2_save_real_def save_stages_def run_stages_def Let_def)

lemma save_stages_names: "map fst (save_stages g) = stage_names"
  by (simp add: save_stages_def stage_names_def)

lemma failed_stage_noop:
  assumes "\<not> sg_success s"
  shows "\<forall>stage \<in> snd ` set (save_stages g). stage s = s"
  using assms
  by (simp add: save_stages_def sg_save_scenario_def sg_save_savefile_def sg_save_game_def
        sg_save_random_def sg_save_script_def sg_save_settings_def sg_save_map_def
        sg_save_players_def sg_save_mapimg_def sg_save_sanitycheck_def)

lemma failed_substage_noop:
  assumes "\<not> sg_success s"
  shows "\<forall>stage \<in> set (save_substages g plr). stage s = s"
  using assms
  by (simp add: save_substages_def sg_save_savefile_options_def sg_save_map_tiles_def
        sg_save_map_startpos_def sg_save_map_tiles_bases_def sg_save_map_tiles_roads_def
        sg_save_map_tiles_specials_def sg_save_map_tiles_resources_def sg_save_map_owner_def
        sg_save_map_worked_def sg_save_map_known_def sg_save_player_main_def
        sg_save_player_cities_def sg_save_player_units_def sg_save_player_attributes_def)

lemma run_stages_failed:
  assumes "\<And>stage s. stage \<in> snd ` set stages \<Longrightarrow> \<not> sg_success s \<Longrightarrow> stage s = s"
    and "\<not> sg_success s"
  shows "run_stages stages s = s\<lparr>invoked := invoked s @ map fst stages\<rparr>"
  using assms
proof (induction stages arbitrary: s)
  case Nil
  show ?case by (simp add: run_stages_def)
next
  case (Cons a stages)
  obtain name stage where a: "a = (name, stage)"
    by (cases a)
  let ?s1 = "s\<lparr>invoked := invoked s @ [name]\<rparr>"
  have failed1: "\<not> sg_success ?s1"
    using Cons.prems(2) by simp
  have "stage ?s1 = ?s1"
    using Cons.prems(1) [of stage ?s1] failed1 a by (simp add: image_iff)
  then have step: "invoke name stage s = ?s1"
    by (simp add: invoke_def)
  have "run_stages stages ?s1 = ?s1\<lparr>invoked := invoked ?s1 @ map fst stages\<rparr>"
    using Cons.prems(1) failed1 by (intro Cons.IH) auto
  then show ?case
    using step a by (simp add: run_stages_def)
qed

lemma run_stages_invoked:
  assumes "\<And>stage s. stage \<in> snd ` set stages \<Longrightarrow> invoked (stage s) = invoked s"
  shows "invoked (run_stages stages s) = invoked s @ map fst stages"
  using assms
proof (induction stages arbitrary: s)
  case Nil
  show ?case by (simp add: run_stages_def)
next
  case (Cons a stages)
  obtain name stage where a: "a = (name, stage)"
    by (cases a)
  have step: "invoked (invoke name stage s) = invoked s @ [name]"
    using Cons.prems [of stage "s\<lparr>invoked := invoked s @ [name]\<rparr>"] a
    by (simp add: invoke_def image_iff)
  have "invoked (run_stages stages (invoke name stage s))
          = invoked (invoke name stage s) @ map fst stages"
    using Cons.prems by (intro Cons.IH) auto
  then show ?case
    using step a by (simp add: run_stages_def)
qed

lemma stages_keep_invoked:
  assumes "stage \<in> snd ` set (save_stages g)"
  shows "invoked (stage s) = invoked s"
proof -
  have later: "invoked (sg_save_map g s) = invoked s"
      "invoked (sg_save_players g s) = invoked s"
      "invoked (sg_save_mapimg g s) = invoked s"
      "invoked (sg_save_sanitycheck g s) = invoked s"
    using grows_map [of s g] grows_players [of s g] grows_mapimg [of s g]
      grows_sanitycheck [of s g]
    by (simp_all add: grows_def)
  from assms later show ?thesis
    by (auto simp add: save_stages_def sg_save_scenario_flags sg_save_savefile_flags
          sg_save_game_flags sg_save_random_flags sg_save_script_flags sg_save_settings_flags)
qed

text \<open>
  Claim C2. From a state whose flag \<open>sg_success\<close> is false, every stage of the save and
  every function the stages call in turn returns the state it was given: it writes no key.
  The top-level routine still calls every remaining stage, in the fixed order: run from such
  a state, the stages from any position on leave the state as it was but for the record of
  the calls, to which the names of all of them are added in order. Whatever the game and
  whatever the flag becomes, the calls recorded by a whole save are the ten stages in the
  order of the source, and the save is its first \<open>k\<close> stages followed by the others.
\<close>

theorem failed_flag_stages_still_invoked:
  assumes "\<not> sg_success s"
  shows "(\<forall>stage \<in> snd ` set (save_stages g) \<union> set (save_substages g plr). stage s = s)
       \<and> run_stages (drop k (save_stages g)) s = s\<lparr>invoked := invoked s @ drop k stage_names\<rparr>
       \<and> invoked (savegame2_save_real g f reason scen st) = stage_names
       \<and> savegame2_save_real g f reason scen st
           = run_stages (drop k (save_stages g))
               (run_stages (take k (save_stages g)) (savedata_new f reason scen st))"
proof (intro conjI)
  show "\<forall>stage \<in> snd ` set (save_stages g) \<union> set (save_substages g plr). stage s = s"
    using failed_stage_noop [OF assms, of g] failed_substage_noop [OF assms, of g plr]
    by blast
next
  have "run_stages (drop k (save_stages g)) s
          = s\<lparr>invoked := invoked s @ map fst (drop k (save_stages g))\<rparr>"
  proof (rule run_stages_failed)
    fix stage :: "sg \<Rightarrow> sg" and s' :: sg
    assume "stage \<in> snd ` set (drop k (save_stages g))" and failed: "\<not> sg_success s'"
    then have "stage \<in> snd ` set (save_stages g)"
      by (auto dest: in_set_dropD)
    with failed_stage_noop [OF failed, of g] show "stage s' = s'"
      by blast
  qed (rule assms)
  then show "run_stages (drop k (save_stages g)) s
               = s\<lparr>invoked := invoked s @ drop k stage_names\<rparr>"
    by (simp add: drop_map [symmetric] save_stages_names)
next
  have "invoked (run_stages (save_stages g) (savedata_new f reason scen st))
          = invoked (savedata_new f reason scen st) @ map fst (save_stages g)"
    by (rule run_stages_invoked) (rule stages_keep_invoked)
  then show "invoked (savegame2_save_real g f reason scen st) = stage_names"
    by (simp add: savegame2_save_real_stages save_stages_names savedata_new_def)
next
  show "savegame2_save_real g f reason scen st
           = run_stages (drop k (save_stages g))
               (run_stages (take k (save_stages g)) (savedata_new f reason scen st))"
    unfolding savegame2_save_real_stages run_stages_append [symmetric] by simp
qed

theorem failed_flag_stages_still_invoked_witness:
  "\<not> sg_success demo_failed
   \<and> sg_save_map demo_game demo_failed = demo_failed
   \<and> sg_save_players demo_game demo_failed = demo_failed
   \<and> sg_save_player_cities demo_game demo_player demo_failed = demo_failed
   \<and> run_stages (drop 7 (save_stages demo_game)) demo_failed
       = demo_failed\<lparr>invoked := [''sg_save_players'', ''sg_save_mapimg'', ''sg_save_sanitycheck'']\<rparr>
   \<and> invoked (savegame2_save_real demo_game [] ''quit'' False demo_units) = stage_names
   \<and> secfile (run_stages (save_stages demo_game) demo_failed) = []
   \<and> sg_success (run_stages (take 7 (save_stages demo_game_overflow))
                   (savedata_new [] ''quit'' False demo_units))
   \<and> \<not> sg_success (savegame2_save_real demo_game_overflow [] ''quit'' False demo_units)
   \<and> invoked (savegame2_save_real demo_game_overflow [] ''quit'' False demo_units)
       = stage_names"
proof -
  have f: "\<not> sg_success demo_failed"
    by (simp add: demo_failed_def)
  have e: "secfile demo_failed = []" and i: "invoked demo_failed = []"
    by (simp_all add: demo_failed_def savedata_new_def)
  note t0 = failed_flag_stages_still_invoked
              [OF f, of demo_game demo_player 0 "[]" "''quit''" False demo_units]
  note t7 = failed_flag_stages_still_invoked
              [OF f, of demo_game demo_player 7 "[]" "''quit''" False demo_units]
  from t0 have noop: "\<forall>stage \<in> snd ` set (save_stages demo_game)
                          \<union> set (save_substages demo_game demo_player).
                        stage demo_failed = demo_failed"
    by (rule conjunct1)
  have c1: "sg_save_map demo_game demo_failed = demo_failed"
    by (rule bspec [OF noop]) (simp add: save_stages_def)
  have c2: "sg_save_players demo_game demo_failed = demo_failed"
    by (rule bspec [OF noop]) (simp add: save_stages_def)
  have c3: "sg_save_player_cities demo_game demo_player demo_failed = demo_failed"
    by (rule bspec [OF noop]) (simp add: save_substages_def)
  from t7 have "run_stages (drop 7 (save_stages demo_game)) demo_failed
                  = demo_failed\<lparr>invoked := invoked demo_failed @ drop 7 stage_names\<rparr>"
    by (rule conjunct1 [OF conjunct2])
  then have c4: "run_stages (drop 7 (save_stages demo_game)) demo_failed
       = demo_failed\<lparr>invoked := [''sg_save_players'', ''sg_save_mapimg'', ''sg_save_sanitycheck'']\<rparr>"
    by (simp add: i stage_names_def)
  from t0 have c5: "invoked (savegame2_save_real demo_game [] ''quit'' False demo_units) = stage_names"
    by (rule conjunct1 [OF conjunct2 [OF conjunct2]])
  from t0 have "run_stages (drop 0 (save_stages demo_game)) demo_failed
                  = demo_failed\<lparr>invoked := invoked demo_failed @ drop 0 stage_names\<rparr>"
    by (rule conjunct1 [OF conjunct2])
  then have c6: "secfile (run_stages (save_stages demo_game) demo_failed) = []"
    by (simp add: e)
  have c7: "sg_success (run_stages (take 7 (save_stages demo_game_overflow))
                   (savedata_new [] ''quit'' False demo_units))"
    by code_simp
  have c8: "\<not> sg_success (savegame2_save_real demo_game_overflow [] ''quit'' False demo_units)"
    by code_simp
  from failed_flag_stages_still_invoked
         [OF f, of demo_game_overflow demo_player 0 "[]" "''quit''" False demo_units]
  have c9: "invoked (savegame2_save_real demo_game_overflow [] ''quit'' False demo_units)
              = stage_names"
    by (rule conjunct1 [OF conjunct2 [OF conjunct2]])
  from f c1 c2 c3 c4 c5 c6 c7 c8 c9 show ?thesis
    by - (intro conjI; assumption)
qed

subsection \<open>A scenario saved without player data\<close>

lemma scenario_save_after_6:
  "scenario_save_after g f reason st 6
     = invoke ''sg_save_settings'' (sg_save_settings g)
         (invoke ''sg_save_script'' (sg_save_script g)
            (invoke ''sg_save_random'' (sg_save_random g)
               (invoke ''sg_save_game'' (sg_save_game g)
                  (invoke ''sg_save_savefile'' (sg_save_savefile g)
                     (invoke ''sg_save_scenario'' (sg_save_scenario g)
                        (savedata_new f reason True st))))))"
  by (simp add: scenario_save_after_def save_stages_def run_stages_def)

lemma scenario_save_after_7:
  "scenario_save_after g f reason st 7
     = invoke ''sg_save_map'' (sg_save_map g) (scenario_save_after g f reason st 6)"
  by (simp add: scenario_save_after_def save_stages_def run_stages_def)

lemma scenario_save_final:
  "savegame2_save_real g f reason True st
     = invoke ''sg_save_sanitycheck'' (sg_save_sanitycheck g)
         (invoke ''sg_save_mapimg'' (sg_save_mapimg g)
            (invoke ''sg_save_players'' (sg_save_players g)
               (scenario_save_after g f reason st 7)))"
  by (simp add: scenario_save_after_def save_stages_def run_stages_def
        savegame2_save_real_def Let_def)

lemma invoke_keeps_entry:
  assumes "\<And>s. grows s (stage s)"
    and "e \<in> set (secfile s)" and "fst e \<noteq> (''savefile.options'', [])"
  shows "e \<in> set (secfile (invoke name stage s))"
  using assms(1) [of "s\<lparr>invoked := invoked s @ [name]\<rparr>"] assms(2,3)
  by (simp add: invoke_def grows_def)

lemma before_map_flags:
  assumes "\<not> scenario_players (g_scenario g)"
  shows "sg_success (scenario_save_after g f reason st 6)
       \<and> scenario (scenario_save_after g f reason st 6)
       \<and> \<not> save_players (scenario_save_after g f reason st 6)"
  using assms
  by (simp add: scenario_save_after_6 invoke_def sg_save_settings_flags sg_save_script_flags
        sg_save_random_flags sg_save_game_flags sg_save_savefile_flags sg_save_scenario_flags
        savedata_new_def)

text \<open>
  Claim C7, as amended. In a save with the scenario flag set of a game whose scenario has
  player data disabled, the Players stage returns at entry and writes nothing, and the
  terrain line of every row of a non-empty map is in the document. The suppression also
  reaches the grid: when the map stage runs, the flag is set, the scenario flag is set and
  player data is off, and in every such state \<open>sg_save_map_owner\<close> and
  \<open>sg_save_map_worked\<close> return without writing the ownership, claimer-source and worked-by
  lines, and \<open>sg_save_map_known\<close> writes only \<open>game.save_known\<close> as false.
\<close>

theorem scenario_without_players_save:
  assumes "\<not> scenario_players (g_scenario g)"
  shows "sg_save_players g (scenario_save_after g f reason st 7)
           = scenario_save_after g f reason st 7
       \<and> (\<not> map_is_empty (gmap g) \<longrightarrow>
            (\<forall>y < ysize (gmap g).
               terrain_line (gmap g) y \<in> set (secfile (savegame2_save_real g f reason True st))))
       \<and> sg_success (scenario_save_after g f reason st 6)
       \<and> scenario (scenario_save_after g f reason st 6)
       \<and> \<not> save_players (scenario_save_after g f reason st 6)
       \<and> (\<forall>s. scenario s \<and> \<not> save_players s \<longrightarrow>
             sg_save_map_owner g s = s \<and> sg_save_map_worked g s = s
             \<and> (sg_success s \<longrightarrow>
                  sg_save_map_known g s
                    = insert_all s [((''game.save_known'', []), VBool False)]))"
proof -
  note b = before_map_flags [OF assms, of f reason st]
  have g67: "grows ((scenario_save_after g f reason st 6)
                      \<lparr>invoked := invoked (scenario_save_after g f reason st 6) @ [''sg_save_map'']\<rparr>)
                 (scenario_save_after g f reason st 7)"
    unfolding scenario_save_after_7 invoke_def by (rule grows_map)
  with b have s7: "scenario (scenario_save_after g f reason st 7)"
      "\<not> save_players (scenario_save_after g f reason st 7)"
    by (simp_all add: grows_def)
  then have players: "sg_save_players g (scenario_save_after g f reason st 7)
                        = scenario_save_after g f reason st 7"
    by (simp add: sg_save_players_def)
  have terrain: "terrain_line (gmap g) y \<in> set (secfile (savegame2_save_real g f reason True st))"
    if "\<not> map_is_empty (gmap g)" and "y < ysize (gmap g)" for y
  proof -
    have in7: "terrain_line (gmap g) y \<in> set (secfile (scenario_save_after g f reason st 7))"
      unfolding scenario_save_after_7 invoke_def
      using b that by (intro terrain_lines_in_map) simp_all
    have key: "fst (terrain_line (gmap g) y) \<noteq> (''savefile.options'', [])"
      by (simp add: terrain_line_def)
    show ?thesis
      unfolding scenario_save_final
      by (intro invoke_keeps_entry grows_sanitycheck grows_mapimg grows_players in7 key)
  qed
  have rest: "\<forall>s. scenario s \<and> \<not> save_players s \<longrightarrow>
             sg_save_map_owner g s = s \<and> sg_save_map_worked g s = s
             \<and> (sg_success s \<longrightarrow>
                  sg_save_map_known g s
                    = insert_all s [((''game.save_known'', []), VBool False)])"
    by (simp add: sg_save_map_owner_def sg_save_map_worked_def sg_save_map_known_def)
  from players terrain b rest show ?thesis
    by blast
qed

theorem scenario_without_players_save_witness:
  "\<not> scenario_players (g_scenario demo_game)
   \<and> \<not> map_is_empty (gmap demo_game)
   \<and> (0::nat) < ysize (gmap demo_game)
   \<and> sg_save_players demo_game (scenario_save_after demo_game [] ''quit'' demo_units 7)
       = scenario_save_after demo_game [] ''quit'' demo_units 7
   \<and> terrain_line (gmap demo_game) 0
       \<in> set (secfile (savegame2_save_real demo_game [] ''quit'' True demo_units))
   \<and> terrain_line (gmap demo_game) 0 = ((''map.t%04d'', [PI 0]), VStr ''g '')
   \<and> sg_save_map_owner demo_game (scenario_save_after demo_game [] ''quit'' demo_units 6)
       = scenario_save_after demo_game [] ''quit'' demo_units 6"
proof -
  have h: "\<not> scenario_players (g_scenario demo_game)"
    by (simp add: demo_game_def demo_scenario_def)
  have m: "\<not> map_is_empty (gmap demo_game)" and y: "(0::nat) < ysize (gmap demo_game)"
    by (simp_all add: demo_game_def demo_map_def)
  have l: "terrain_line (gmap demo_game) 0 = ((''map.t%04d'', [PI 0]), VStr ''g '')"
    by code_simp
  note t = scenario_without_players_save [OF h, of "[]" "''quit''" demo_units]
  from t have 1: "sg_save_players demo_game (scenario_save_after demo_game [] ''quit'' demo_units 7)
       = scenario_save_after demo_game [] ''quit'' demo_units 7"
    by (rule conjunct1)
  from t m y have 2: "terrain_line (gmap demo_game) 0
       \<in> set (secfile (savegame2_save_real demo_game [] ''quit'' True demo_units))"
    by blast
  from t have 3: "sg_save_map_owner demo_game (scenario_save_after demo_game [] ''quit'' demo_units 6)
       = scenario_save_after demo_game [] ''quit'' demo_units 6"
    by blast
  from h m y 1 2 l 3 show ?thesis
    by - (intro conjI; assumption)
qed

text \<open>The claim as stated fails: of the same game saved as a scenario with and without
  player data, the first document has the ownership line of row 0, written by the map stage
  before the Players stage runs, and the second has not.\<close>

theorem scenario_suppression_reaches_grid:
  "scenario_players (g_scenario demo_game_players)
   \<and> \<not> scenario_players (g_scenario demo_game)
   \<and> (''map.owner%04d'', [PI 0])
       \<in> secfile_keys (secfile (scenario_save_after demo_game_players [] ''quit'' demo_units 7))
   \<and> (''map.owner%04d'', [PI 0])
       \<in> secfile_keys (secfile (savegame2_save_real demo_game_players [] ''quit'' True demo_units))
   \<and> (''map.owner%04d'', [PI 0])
       \<notin> secfile_keys (secfile (savegame2_save_real demo_game [] ''quit'' True demo_units))"
  by code_simp

end
